theory Spec2Isabelle
  imports Main "HOL-Library.Word"
begin

section \<open>The Riegeli dataset iterator (riegeli/tensorflow/kernels/riegeli_dataset_ops.cc)\<close>

text \<open>
  The iterator of \<^verbatim>\<open>RiegeliDatasetOp::Dataset\<close> reads the files of
  \<^verbatim>\<open>filenames_\<close> one after the other through a \<^verbatim>\<open>RecordReader\<close>.
  Its state is the pair \<^verbatim>\<open>current_file_index_\<close>, \<^verbatim>\<open>reader_\<close>; the mutex
  \<^verbatim>\<open>mu_\<close> makes every method atomic, so each method is a function from the state
  before the call to the result and the state after it.
\<close>

subsection \<open>Status values\<close>

text \<open>
  The canonical error space. \<^verbatim>\<open>riegeli::Status\<close> and \<^verbatim>\<open>tensorflow::Status\<close>
  use the same codes, which is what the \<^verbatim>\<open>static_cast\<close> of line 151 relies on, so one
  datatype serves both.
\<close>

datatype Code = OK | CANCELLED | UNKNOWN | INVALID_ARGUMENT | DEADLINE_EXCEEDED
  | NOT_FOUND | ALREADY_EXISTS | PERMISSION_DENIED | RESOURCE_EXHAUSTED
  | FAILED_PRECONDITION | ABORTED | OUT_OF_RANGE | UNIMPLEMENTED | INTERNAL
  | UNAVAILABLE | DATA_LOSS | UNAUTHENTICATED

record Status =
  code :: Code
  message :: string

definition Status_OK :: Status where
  "Status_OK = \<lparr>code = OK, message = []\<rparr>"

definition ok :: "Status \<Rightarrow> bool" where
  "ok s = (code s = OK)"

text \<open>\<^verbatim>\<open>errors::DataLoss(a, b)\<close> and \<^verbatim>\<open>errors::Internal(a)\<close> concatenate their arguments
  into the message.\<close>

definition DataLoss :: "string \<Rightarrow> string \<Rightarrow> Status" where
  "DataLoss a b = \<lparr>code = DATA_LOSS, message = a @ b\<rparr>"

definition Internal :: "string \<Rightarrow> Status" where
  "Internal a = \<lparr>code = INTERNAL, message = a\<rparr>"

subsection \<open>The record reader, as the iterator uses it\<close>

text \<open>
  \<^verbatim>\<open>RecordReader\<close>, \<^verbatim>\<open>FileReader\<close>, \<^verbatim>\<open>RecordPosition\<close> and \<^verbatim>\<open>SkippedRegion\<close>
  are declared in headers that the iterator only includes. They are parameters of the
  model: \<open>'r\<close> is the state of an open reader (with the file behind it), \<open>'p\<close> a record
  position, \<open>'k\<close> a skipped region. A method that changes the reader returns the new
  reader next to its result. \<open>ReadRecord\<close> returns \<open>Some v\<close> where the C++ returns
  true and stores \<open>v\<close>, \<open>Recover\<close> returns \<open>Some region\<close> where the C++ returns true,
  \<open>FromBytes\<close> returns \<open>Some p\<close> where the C++ returns true. \<open>FileReader\<close> stands for
  the construction of line 229 in the environment of the call.
\<close>

record ('r, 'p, 'k) RecordReader_api =
  FileReader :: "string \<Rightarrow> 'r"
  ReadRecord :: "'r \<Rightarrow> string option \<times> 'r"
  Recover :: "'r \<Rightarrow> 'k option \<times> 'r"
  Close :: "'r \<Rightarrow> bool \<times> 'r"
  status :: "'r \<Rightarrow> Status"
  pos :: "'r \<Rightarrow> 'p"
  Seek :: "'p \<Rightarrow> 'r \<Rightarrow> bool \<times> 'r"
  ToString :: "'k \<Rightarrow> string"
  ToBytes :: "'p \<Rightarrow> string"
  FromBytes :: "string \<Rightarrow> 'p option"

subsection \<open>Dataset and iterator state\<close>

record Dataset =
  filenames :: "string list"

text \<open>
  The members of lines 240 to 243. \<^verbatim>\<open>current_file_index_\<close> is a \<^verbatim>\<open>size_t\<close>, as
  \<^verbatim>\<open>filenames_.size()\<close> is. The only arithmetic on it is the increment of lines 147 and
  157, made while a reader is open: under the invariants below that is at an index
  below \<^verbatim>\<open>filenames_.size()\<close>, where the increment does not wrap (lemma
  \<open>increment_in_range\<close>). So the index is a natural number here.
\<close>

record 'r Iterator =
  current_file_index :: nat
  reader :: "'r option"

definition Iterator_init :: "'r Iterator" where
  "Iterator_init = \<lparr>current_file_index = 0, reader = None\<rparr>"

text \<open>The invariants stated at lines 234 to 237.\<close>

definition Invariants :: "Dataset \<Rightarrow> 'r Iterator \<Rightarrow> bool" where
  "Invariants ds it =
     (current_file_index it \<le> length (filenames ds) \<and>
      (current_file_index it = length (filenames ds) \<longrightarrow> reader it = None))"

text \<open>
  \<^verbatim>\<open>OpenFile\<close> reads \<^verbatim>\<open>filenames_[current_file_index_]\<close>. Outside the vector the C++
  has no defined behaviour: the model returns \<open>None\<close> there.
\<close>

definition OpenFile ::
  "('r, 'p, 'k) RecordReader_api \<Rightarrow> Dataset \<Rightarrow> 'r Iterator \<Rightarrow> 'r Iterator option" where
  "OpenFile api ds it =
     (if current_file_index it < length (filenames ds)
      then Some (it\<lparr>reader := Some (FileReader api (filenames ds ! current_file_index it))\<rparr>)
      else None)"

subsection \<open>GetNextInternal\<close>

text \<open>What one call hands back: the returned status, the tensors it appended to
  \<^verbatim>\<open>*out_tensors\<close>, and the value it stored in \<^verbatim>\<open>*end_of_sequence\<close>.\<close>

record GetNext_out =
  returned :: Status
  out_tensors :: "string list"
  end_of_sequence :: bool

text \<open>
  Lines 121 to 158, the block under \<^verbatim>\<open>if (reader_.has_value())\<close>: \<open>Inl\<close> is a
  \<^verbatim>\<open>return\<close> from inside the block, \<open>Inr\<close> is control leaving the block (or skipping it)
  with the iterator as it is then.
\<close>

definition GetNextInternal_read ::
  "('r, 'p, 'k) RecordReader_api \<Rightarrow> Dataset \<Rightarrow> 'r Iterator
     \<Rightarrow> (GetNext_out \<times> 'r Iterator) + 'r Iterator" where
  "GetNextInternal_read api ds it =
     (case reader it of
        None \<Rightarrow> Inr it
      | Some r \<Rightarrow>
          (let (rec, r1) = ReadRecord api r in
           case rec of
             Some v \<Rightarrow>
               Inl (\<lparr>returned = Status_OK, out_tensors = [v], end_of_sequence = False\<rparr>,
                    it\<lparr>reader := Some r1\<rparr>)
           | None \<Rightarrow>
               (let (skipped_region, r2) = Recover api r1 in
                case skipped_region of
                  Some region \<Rightarrow>
                    Inl (\<lparr>returned =
                            DataLoss ''Skipping invalid region of a Riegeli/records file: ''
                              (ToString api region),
                          out_tensors = [], end_of_sequence = False\<rparr>,
                         it\<lparr>reader := Some r2\<rparr>)
                | None \<Rightarrow>
                    (let (closed, r3) = Close api r2 in
                     if \<not> closed then
                       Inl (\<lparr>returned = \<lparr>code = code (status api r3),
                                          message = message (status api r3)\<rparr>,
                             out_tensors = [],
                             end_of_sequence =
                               (current_file_index it + 1 = length (filenames ds))\<rparr>,
                            it\<lparr>reader := None,
                               current_file_index := current_file_index it + 1\<rparr>)
                     else
                       Inr (it\<lparr>reader := None,
                               current_file_index := current_file_index it + 1\<rparr>)))))"

text \<open>
  The loop \<^verbatim>\<open>for (;;)\<close> of lines 120 to 168. \<open>None\<close> is the undefined behaviour of
  \<^verbatim>\<open>OpenFile\<close> outside the vector.
\<close>

function GetNextInternal ::
  "('r, 'p, 'k) RecordReader_api \<Rightarrow> Dataset \<Rightarrow> 'r Iterator
     \<Rightarrow> (GetNext_out \<times> 'r Iterator) option" where
  "GetNextInternal api ds it =
     (case GetNextInternal_read api ds it of
        Inl res \<Rightarrow> Some res
      | Inr it1 \<Rightarrow>
          if current_file_index it1 = length (filenames ds) then
            Some (\<lparr>returned = Status_OK, out_tensors = [], end_of_sequence = True\<rparr>, it1)
          else
            (case OpenFile api ds it1 of
               None \<Rightarrow> None
             | Some it2 \<Rightarrow> GetNextInternal api ds it2))"
  by pat_completeness auto
termination
proof (relation "measure (\<lambda>(api, ds, it).
          2 * (length (filenames ds) - current_file_index it)
          + (if reader it = None then 1 else 0))", goal_cases)
  case 1
  show ?case by simp
next
  case (2 api ds it it1 it2)
  from 2(1) have "reader it1 = None \<and>
      current_file_index it1 =
        (if reader it = None then current_file_index it else current_file_index it + 1)"
    by (auto simp: GetNextInternal_read_def Let_def
             split: option.splits prod.splits if_splits)
  moreover from 2(3) have "current_file_index it2 = current_file_index it1 \<and>
      reader it2 \<noteq> None \<and> current_file_index it1 < length (filenames ds)"
    by (auto simp: OpenFile_def split: if_splits)
  ultimately show ?case by (auto split: if_splits)
qed

declare GetNextInternal.simps [simp del]

subsection \<open>The checkpoint interfaces\<close>

text \<open>
  \<^verbatim>\<open>IteratorStateWriter\<close> and \<^verbatim>\<open>IteratorStateReader\<close> are interfaces of the host
  framework; \<^verbatim>\<open>full_name\<close> is a method of the iterator's base class that turns a field
  name into a checkpoint key. They are parameters too. \<open>'w\<close> is the state of a writer;
  a reader is only read. \<^verbatim>\<open>int64\<close> is a 64-bit word read with \<open>sint\<close>.
\<close>

record 'w IteratorStateWriter_api =
  WriteScalar_int64 :: "string \<Rightarrow> 64 word \<Rightarrow> 'w \<Rightarrow> Status \<times> 'w"
  WriteScalar_string :: "string \<Rightarrow> string \<Rightarrow> 'w \<Rightarrow> Status \<times> 'w"

record IteratorStateReader =
  ReadScalar_int64 :: "string \<Rightarrow> Status \<times> 64 word"
  ReadScalar_string :: "string \<Rightarrow> Status \<times> string"
  Contains :: "string \<Rightarrow> bool"

record Params =
  full_name :: "string \<Rightarrow> string"

text \<open>
  \<^verbatim>\<open>IntCast<int64>\<close> of a \<^verbatim>\<open>size_t\<close>: the value itself when it fits (asserted in debug
  builds only), its low 64 bits in any case.
\<close>

definition IntCast_int64 :: "nat \<Rightarrow> 64 word" where
  "IntCast_int64 n = word_of_nat n"

subsection \<open>SaveInternal\<close>

text \<open>
  Lines 172 to 184. \<^verbatim>\<open>TF_RETURN_IF_ERROR\<close> returns the status of its argument when it
  is not OK. The method is given the iterator and hands it back, so that what it does to
  the iterator can be stated.
\<close>

definition SaveInternal ::
  "('r, 'p, 'k) RecordReader_api \<Rightarrow> Params \<Rightarrow> 'w IteratorStateWriter_api \<Rightarrow> 'w
     \<Rightarrow> 'r Iterator \<Rightarrow> Status \<times> 'w \<times> 'r Iterator" where
  "SaveInternal api pr wapi w it =
     (let (s1, w1) = WriteScalar_int64 wapi (full_name pr ''current_file_index'')
                       (IntCast_int64 (current_file_index it)) w in
      if \<not> ok s1 then (s1, w1, it)
      else
        (case reader it of
           Some r \<Rightarrow>
             (let (s2, w2) = WriteScalar_string wapi (full_name pr ''current_pos'')
                               (ToBytes api (pos api r)) w1 in
              if \<not> ok s2 then (s2, w2, it) else (Status_OK, w2, it))
         | None \<Rightarrow> (Status_OK, w1, it)))"

subsection \<open>RestoreInternal\<close>

text \<open>
  Lines 186 to 224. \<open>None\<close> is undefined behaviour (\<^verbatim>\<open>OpenFile\<close> outside the vector,
  or \<^verbatim>\<open>reader_->Seek\<close> on an empty optional); \<open>RestoreInternal_defined\<close> shows that
  it never happens. The result of \<^verbatim>\<open>Seek\<close> is dropped, as in the source.
\<close>

definition RestoreInternal ::
  "('r, 'p, 'k) RecordReader_api \<Rightarrow> Params \<Rightarrow> Dataset \<Rightarrow> IteratorStateReader
     \<Rightarrow> 'r Iterator \<Rightarrow> (Status \<times> 'r Iterator) option" where
  "RestoreInternal api pr ds rd it0 =
     (let it1 = it0\<lparr>current_file_index := 0, reader := None\<rparr>;
          (s1, cfi) = ReadScalar_int64 rd (full_name pr ''current_file_index'') in
      if \<not> ok s1 then Some (s1, it1)
      else if sint cfi < 0 \<or> nat (sint cfi) > length (filenames ds) then
        Some (Internal ''current_file_index out of range'', it1)
      else
        (let it2 = it1\<lparr>current_file_index := nat (sint cfi)\<rparr> in
         if Contains rd (full_name pr ''current_pos'') then
           if current_file_index it2 = length (filenames ds) then
             Some (Internal ''current_file_index out of range'', it2)
           else
             (let (s2, current_pos) = ReadScalar_string rd (full_name pr ''current_pos'') in
              if \<not> ok s2 then Some (s2, it2)
              else
                (case FromBytes api current_pos of
                   None \<Rightarrow> Some (Internal ''current_pos is not a valid RecordPosition'', it2)
                 | Some p \<Rightarrow>
                     (case OpenFile api ds it2 of
                        None \<Rightarrow> None
                      | Some it3 \<Rightarrow>
                          (case reader it3 of
                             None \<Rightarrow> None
                           | Some r \<Rightarrow>
                               Some (Status_OK, it3\<lparr>reader := Some (snd (Seek api p r))\<rparr>)))))
         else Some (Status_OK, it2)))"

subsection \<open>Callers\<close>

text \<open>
  The host calls \<^verbatim>\<open>GetNextInternal\<close> again and again. \<open>GetNext_calls n\<close> is the list
  of what the first \<open>n\<close> calls hand back, with the iterator after them.
\<close>

fun GetNext_calls ::
  "('r, 'p, 'k) RecordReader_api \<Rightarrow> Dataset \<Rightarrow> nat \<Rightarrow> 'r Iterator
     \<Rightarrow> (GetNext_out list \<times> 'r Iterator) option" where
  "GetNext_calls api ds 0 it = Some ([], it)"
| "GetNext_calls api ds (Suc n) it =
     (case GetNextInternal api ds it of
        None \<Rightarrow> None
      | Some (out, it1) \<Rightarrow>
          (case GetNext_calls api ds n it1 of
             None \<Rightarrow> None
           | Some (outs, it2) \<Rightarrow> Some (out # outs, it2)))"

text \<open>
  \<open>produce_until_end n\<close> calls until a call sets \<^verbatim>\<open>*end_of_sequence\<close>, at most
  \<open>n\<close> times: \<open>None\<close> when \<open>n\<close> calls did not reach the end (or a call was undefined).
\<close>

fun produce_until_end ::
  "('r, 'p, 'k) RecordReader_api \<Rightarrow> Dataset \<Rightarrow> nat \<Rightarrow> 'r Iterator
     \<Rightarrow> GetNext_out list option" where
  "produce_until_end api ds 0 it = None"
| "produce_until_end api ds (Suc n) it =
     (case GetNextInternal api ds it of
        None \<Rightarrow> None
      | Some (out, it1) \<Rightarrow>
          if end_of_sequence out then Some [out]
          else map_option ((#) out) (produce_until_end api ds n it1))"

definition records_of :: "GetNext_out list \<Rightarrow> string list" where
  "records_of outs = concat (map out_tensors outs)"

text \<open>
  The states an iterator can be in: it starts at \<open>Iterator_init\<close>, and each method
  call (with any checkpoint reader, whatever its status) leads to the next state.
  \<^verbatim>\<open>SaveInternal\<close> hands back the iterator it was given.
\<close>

inductive reachable ::
  "('r, 'p, 'k) RecordReader_api \<Rightarrow> Params \<Rightarrow> Dataset \<Rightarrow> 'r Iterator \<Rightarrow> bool"
  for api :: "('r, 'p, 'k) RecordReader_api" and pr :: Params and ds :: Dataset where
  reachable_init: "reachable api pr ds Iterator_init"
| reachable_GetNext:
    "reachable api pr ds it \<Longrightarrow> GetNextInternal api ds it = Some (out, it1)
       \<Longrightarrow> reachable api pr ds it1"
| reachable_Restore:
    "reachable api pr ds it \<Longrightarrow> RestoreInternal api pr ds rd it = Some (s, it1)
       \<Longrightarrow> reachable api pr ds it1"

subsection \<open>Cursors\<close>

text \<open>
  The specification's cursor: a file index and, when a file was open, the bytes of a
  position in it. The file index is the \<^verbatim>\<open>int64\<close> that the checkpoint stores.
\<close>

record Cursor =
  file_index :: "64 word"
  byte_position :: "string option"

text \<open>
  A checkpoint reader holds a cursor when it reads the cursor's file index under the key
  of \<^verbatim>\<open>current_file_index\<close>, and has the key of \<^verbatim>\<open>current_pos\<close> exactly when the
  cursor has a position, which it then reads under that key.
\<close>

definition holds_cursor :: "Params \<Rightarrow> IteratorStateReader \<Rightarrow> Cursor \<Rightarrow> bool" where
  "holds_cursor pr rd c =
     (ok (fst (ReadScalar_int64 rd (full_name pr ''current_file_index''))) \<and>
      snd (ReadScalar_int64 rd (full_name pr ''current_file_index'')) = file_index c \<and>
      (case byte_position c of
         None \<Rightarrow> \<not> Contains rd (full_name pr ''current_pos'')
       | Some b \<Rightarrow>
           Contains rd (full_name pr ''current_pos'') \<and>
           ok (fst (ReadScalar_string rd (full_name pr ''current_pos''))) \<and>
           snd (ReadScalar_string rd (full_name pr ''current_pos'')) = b))"

text \<open>
  The two writes that \<^verbatim>\<open>SaveInternal\<close> can make, named to state what it does with
  their results: the write of the file index to the writer it is given (lines 176 to
  178), and the write of a reader's position to the writer that the first write left
  (lines 180 and 181).
\<close>

definition index_write ::
  "Params \<Rightarrow> 'w IteratorStateWriter_api \<Rightarrow> 'w \<Rightarrow> 'r Iterator \<Rightarrow> Status \<times> 'w" where
  "index_write pr wapi w it =
     WriteScalar_int64 wapi (full_name pr ''current_file_index'')
       (IntCast_int64 (current_file_index it)) w"

definition pos_write ::
  "('r, 'p, 'k) RecordReader_api \<Rightarrow> Params \<Rightarrow> 'w IteratorStateWriter_api \<Rightarrow> 'w
     \<Rightarrow> 'r Iterator \<Rightarrow> 'r \<Rightarrow> Status \<times> 'w" where
  "pos_write api pr wapi w it r =
     WriteScalar_string wapi (full_name pr ''current_pos'') (ToBytes api (pos api r))
       (snd (index_write pr wapi w it))"

text \<open>The cursor of an iterator state: what \<^verbatim>\<open>SaveInternal\<close> is to store.\<close>

definition cursor_of :: "('r, 'p, 'k) RecordReader_api \<Rightarrow> 'r Iterator \<Rightarrow> Cursor" where
  "cursor_of api it =
     \<lparr>file_index = IntCast_int64 (current_file_index it),
      byte_position = map_option (\<lambda>r. ToBytes api (pos api r)) (reader it)\<rparr>"

text \<open>
  What the iterator needs of the host's checkpoints, for its two keys: \<open>rd_of w\<close> is
  the reader that the host builds over what was written to \<open>w\<close>. A scalar written
  under a key is read back under it, writing one of the two keys leaves the other as it
  was, and the writer \<open>w0\<close> has no \<^verbatim>\<open>current_pos\<close> of this iterator yet.
\<close>

definition checkpoint_roundtrip ::
  "Params \<Rightarrow> 'w IteratorStateWriter_api \<Rightarrow> ('w \<Rightarrow> IteratorStateReader) \<Rightarrow> 'w \<Rightarrow> bool" where
  "checkpoint_roundtrip pr wapi rd_of w0 =
     (\<not> Contains (rd_of w0) (full_name pr ''current_pos'') \<and>
      (\<forall>v w. ok (fst (WriteScalar_int64 wapi (full_name pr ''current_file_index'') v w)) \<longrightarrow>
         ok (fst (ReadScalar_int64
                    (rd_of (snd (WriteScalar_int64 wapi (full_name pr ''current_file_index'') v w)))
                    (full_name pr ''current_file_index''))) \<and>
         snd (ReadScalar_int64
                (rd_of (snd (WriteScalar_int64 wapi (full_name pr ''current_file_index'') v w)))
                (full_name pr ''current_file_index'')) = v \<and>
         Contains (rd_of (snd (WriteScalar_int64 wapi (full_name pr ''current_file_index'') v w)))
             (full_name pr ''current_pos'') =
           Contains (rd_of w) (full_name pr ''current_pos'')) \<and>
      (\<forall>b w. ok (fst (WriteScalar_string wapi (full_name pr ''current_pos'') b w)) \<longrightarrow>
         Contains (rd_of (snd (WriteScalar_string wapi (full_name pr ''current_pos'') b w)))
             (full_name pr ''current_pos'') \<and>
         ok (fst (ReadScalar_string
                    (rd_of (snd (WriteScalar_string wapi (full_name pr ''current_pos'') b w)))
                    (full_name pr ''current_pos''))) \<and>
         snd (ReadScalar_string
                (rd_of (snd (WriteScalar_string wapi (full_name pr ''current_pos'') b w)))
                (full_name pr ''current_pos'')) = b \<and>
         ReadScalar_int64
             (rd_of (snd (WriteScalar_string wapi (full_name pr ''current_pos'') b w)))
             (full_name pr ''current_file_index'') =
           ReadScalar_int64 (rd_of w) (full_name pr ''current_file_index'')))"

subsection \<open>Reading the files by hand\<close>

text \<open>
  The specification compares the iterator with the concatenation of each file's record
  stream. \<open>file_records\<close> is the stream of one reader, read by hand: every record that
  \<^verbatim>\<open>ReadRecord\<close> yields, in that order; after a failed read the stream goes on behind
  the skipped region when \<^verbatim>\<open>Recover\<close> succeeds, and ends otherwise. The first argument
  bounds the number of reads: \<open>None\<close> when the stream does not end within them.
  \<open>all_records\<close> concatenates the streams of a list of files, each opened afresh, in
  the order of the list.
\<close>

fun file_records :: "('r, 'p, 'k) RecordReader_api \<Rightarrow> nat \<Rightarrow> 'r \<Rightarrow> string list option" where
  "file_records api 0 r = None"
| "file_records api (Suc n) r =
     (case ReadRecord api r of
        (rec, r1) \<Rightarrow>
          (case rec of
             Some v \<Rightarrow> map_option ((#) v) (file_records api n r1)
           | None \<Rightarrow>
               (case Recover api r1 of
                  (skipped_region, r2) \<Rightarrow>
                    (case skipped_region of
                       Some region \<Rightarrow> file_records api n r2
                     | None \<Rightarrow> Some []))))"

fun all_records ::
  "('r, 'p, 'k) RecordReader_api \<Rightarrow> nat \<Rightarrow> string list \<Rightarrow> string list option" where
  "all_records api n [] = Some []"
| "all_records api n (f # fs) =
     (case file_records api n (FileReader api f) of
        None \<Rightarrow> None
      | Some xs \<Rightarrow> map_option ((@) xs) (all_records api n fs))"

subsection \<open>Readers that behave alike\<close>

text \<open>
  The specification asks of a restored reader that it behaves as the saved one did, not
  that it is the same object. Two readers behave alike when \<^verbatim>\<open>ReadRecord\<close>,
  \<^verbatim>\<open>Recover\<close> and \<^verbatim>\<open>Close\<close> return the same on both, \<^verbatim>\<open>Close\<close> leaves both with
  the same status, and the readers after \<^verbatim>\<open>ReadRecord\<close> and after \<^verbatim>\<open>Recover\<close> behave
  alike again, for ever. Two iterators behave alike when they are at the same file index
  and both have no reader or have readers that behave alike.
\<close>

coinductive same_behaviour :: "('r, 'p, 'k) RecordReader_api \<Rightarrow> 'r \<Rightarrow> 'r \<Rightarrow> bool"
  for api :: "('r, 'p, 'k) RecordReader_api" where
  "fst (ReadRecord api r) = fst (ReadRecord api r') \<Longrightarrow>
   same_behaviour api (snd (ReadRecord api r)) (snd (ReadRecord api r')) \<Longrightarrow>
   fst (Recover api r) = fst (Recover api r') \<Longrightarrow>
   same_behaviour api (snd (Recover api r)) (snd (Recover api r')) \<Longrightarrow>
   fst (Close api r) = fst (Close api r') \<Longrightarrow>
   status api (snd (Close api r)) = status api (snd (Close api r')) \<Longrightarrow>
   same_behaviour api r r'"

definition same_iterator ::
  "('r, 'p, 'k) RecordReader_api \<Rightarrow> 'r Iterator \<Rightarrow> 'r Iterator \<Rightarrow> bool" where
  "same_iterator api it it' =
     (current_file_index it = current_file_index it' \<and>
      rel_option (same_behaviour api) (reader it) (reader it'))"

subsection \<open>An in-memory record source\<close>

text \<open>
  A small record source to run the iterator on: a file is a list of blocks, a reader is a
  file with an offset into it, a position is an offset. A \<open>Rec\<close> block is read as a
  record; at a \<open>Corrupt\<close> block reading fails and recovery skips the block, reporting
  its description; at a \<open>Broken\<close> block reading and recovery fail and the reader does
  not close cleanly. A reader also counts the seeks made on it, which none of its
  methods shows: a reader that was sought is another reader than one that read its way to
  the same offset. Three files exist: \<open>''a''\<close>, \<open>''b''\<close> and \<open>''c''\<close>.
\<close>

datatype block = Rec string | Corrupt string | Broken

record mem_reader =
  contents :: "block list"
  offset :: nat
  seeks :: nat

definition mem_ReadRecord :: "mem_reader \<Rightarrow> string option \<times> mem_reader" where
  "mem_ReadRecord r =
     (if offset r < length (contents r) then
        (case contents r ! offset r of
           Rec v \<Rightarrow> (Some v, r\<lparr>offset := offset r + 1\<rparr>)
         | Corrupt d \<Rightarrow> (None, r)
         | Broken \<Rightarrow> (None, r))
      else (None, r))"

definition mem_Recover :: "mem_reader \<Rightarrow> string option \<times> mem_reader" where
  "mem_Recover r =
     (if offset r < length (contents r) then
        (case contents r ! offset r of
           Rec v \<Rightarrow> (None, r)
         | Corrupt d \<Rightarrow> (Some d, r\<lparr>offset := offset r + 1\<rparr>)
         | Broken \<Rightarrow> (None, r))
      else (None, r))"

definition mem_healthy :: "mem_reader \<Rightarrow> bool" where
  "mem_healthy r =
     (if offset r < length (contents r) then contents r ! offset r \<noteq> Broken else True)"

definition mem_status :: "mem_reader \<Rightarrow> Status" where
  "mem_status r =
     (if mem_healthy r then Status_OK else \<lparr>code = DATA_LOSS, message = ''broken file''\<rparr>)"

definition mem_files :: "string \<Rightarrow> block list" where
  "mem_files name =
     (if name = ''a'' then [Rec ''a1'', Corrupt ''[1..2)'', Rec ''a2'']
      else if name = ''b'' then [Rec ''b1'']
      else [Broken])"

definition mem_FromBytes :: "string \<Rightarrow> nat option" where
  "mem_FromBytes s = (if list_all (\<lambda>c. c = CHR ''p'') s then Some (length s) else None)"

definition mem_api :: "(mem_reader, nat, string) RecordReader_api" where
  "mem_api =
     \<lparr>FileReader = (\<lambda>name. \<lparr>contents = mem_files name, offset = 0, seeks = 0\<rparr>),
      ReadRecord = mem_ReadRecord,
      Recover = mem_Recover,
      Close = (\<lambda>r. (mem_healthy r, r)),
      status = mem_status,
      pos = offset,
      Seek = (\<lambda>p r. (True, r\<lparr>offset := p, seeks := seeks r + 1\<rparr>)),
      ToString = (\<lambda>d. d),
      ToBytes = (\<lambda>p. replicate p (CHR ''p'')),
      FromBytes = mem_FromBytes\<rparr>"

definition mem_ds :: Dataset where
  "mem_ds = \<lparr>filenames = [''a'', ''b'', ''c'']\<rparr>"

text \<open>The reader of a file that read its way to an offset, and the one that was opened
  and sought to it.\<close>

definition mem_at :: "string \<Rightarrow> nat \<Rightarrow> mem_reader" where
  "mem_at name n = \<lparr>contents = mem_files name, offset = n, seeks = 0\<rparr>"

definition mem_sought :: "string \<Rightarrow> nat \<Rightarrow> mem_reader" where
  "mem_sought name n = \<lparr>contents = mem_files name, offset = n, seeks = 1\<rparr>"

subsection \<open>An in-memory checkpoint\<close>

text \<open>A checkpoint as a list of keys with their scalars, the newest first.\<close>

type_synonym mem_checkpoint = "(string \<times> (64 word + string)) list"

definition mem_wapi :: "mem_checkpoint IteratorStateWriter_api" where
  "mem_wapi =
     \<lparr>WriteScalar_int64 = (\<lambda>k v w. (Status_OK, (k, Inl v) # w)),
      WriteScalar_string = (\<lambda>k b w. (Status_OK, (k, Inr b) # w))\<rparr>"

text \<open>A writer with room for \<open>n\<close> scalars: a write to a full checkpoint fails and
  leaves it as it was.\<close>

definition mem_wapi_limit :: "nat \<Rightarrow> mem_checkpoint IteratorStateWriter_api" where
  "mem_wapi_limit n =
     \<lparr>WriteScalar_int64 =
        (\<lambda>k v w. if length w < n then (Status_OK, (k, Inl v) # w)
                 else (\<lparr>code = RESOURCE_EXHAUSTED, message = k\<rparr>, w)),
      WriteScalar_string =
        (\<lambda>k b w. if length w < n then (Status_OK, (k, Inr b) # w)
                 else (\<lparr>code = RESOURCE_EXHAUSTED, message = k\<rparr>, w))\<rparr>"

definition mem_rd_of :: "mem_checkpoint \<Rightarrow> IteratorStateReader" where
  "mem_rd_of w =
     \<lparr>ReadScalar_int64 =
        (\<lambda>k. case map_of w k of
                Some (Inl v) \<Rightarrow> (Status_OK, v)
              | _ \<Rightarrow> (\<lparr>code = NOT_FOUND, message = k\<rparr>, 0)),
      ReadScalar_string =
        (\<lambda>k. case map_of w k of
                Some (Inr b) \<Rightarrow> (Status_OK, b)
              | _ \<Rightarrow> (\<lparr>code = NOT_FOUND, message = k\<rparr>, [])),
      Contains = (\<lambda>k. map_of w k \<noteq> None)\<rparr>"

definition mem_params :: Params where
  "mem_params = \<lparr>full_name = (\<lambda>name. ''Riegeli:'' @ name)\<rparr>"

text \<open>An iterator restored at the start of file \<open>''b''\<close>, and checkpoint readers to
  restore from.\<close>

definition mem_it_b :: "mem_reader Iterator" where
  "mem_it_b = \<lparr>current_file_index = 1, reader = Some (mem_sought ''b'' 0)\<rparr>"

definition mem_rd_index :: "64 word \<Rightarrow> IteratorStateReader" where
  "mem_rd_index v = mem_rd_of [(''Riegeli:current_file_index'', Inl v)]"

definition mem_rd_pos :: "64 word \<Rightarrow> string \<Rightarrow> IteratorStateReader" where
  "mem_rd_pos v b =
     mem_rd_of [(''Riegeli:current_pos'', Inr b), (''Riegeli:current_file_index'', Inl v)]"

section \<open>Properties\<close>

subsection \<open>One call, case by case\<close>

lemma GetNextInternal_read_Inr:
  assumes "GetNextInternal_read api ds it = Inr it'"
  shows "reader it' = None \<and>
         current_file_index it' =
           (if reader it = None then current_file_index it else current_file_index it + 1)"
  using assms
  by (auto simp: GetNextInternal_read_def Let_def
           split: option.splits prod.splits if_splits)

lemma OpenFile_Some:
  assumes "OpenFile api ds it = Some it'"
  shows "current_file_index it' = current_file_index it \<and> reader it' \<noteq> None \<and>
         current_file_index it < length (filenames ds)"
  using assms by (auto simp: OpenFile_def split: if_splits)

lemma GetNextInternal_read_None:
  "reader it = None \<Longrightarrow> GetNextInternal_read api ds it = Inr it"
  by (simp add: GetNextInternal_read_def)

lemma GetNextInternal_closed:
  "reader it = None \<Longrightarrow>
   GetNextInternal api ds it =
     (if current_file_index it = length (filenames ds) then
        Some (\<lparr>returned = Status_OK, out_tensors = [], end_of_sequence = True\<rparr>, it)
      else if current_file_index it < length (filenames ds) then
        GetNextInternal api ds
          (it\<lparr>reader := Some (FileReader api (filenames ds ! current_file_index it))\<rparr>)
      else None)"
  by (subst GetNextInternal.simps) (simp add: GetNextInternal_read_None OpenFile_def)

lemma GetNextInternal_record:
  "reader it = Some r \<Longrightarrow> ReadRecord api r = (Some v, r1) \<Longrightarrow>
   GetNextInternal api ds it =
     Some (\<lparr>returned = Status_OK, out_tensors = [v], end_of_sequence = False\<rparr>,
           it\<lparr>reader := Some r1\<rparr>)"
  by (subst GetNextInternal.simps) (simp add: GetNextInternal_read_def)

lemma GetNextInternal_skipped:
  "reader it = Some r \<Longrightarrow> ReadRecord api r = (None, r1) \<Longrightarrow>
   Recover api r1 = (Some region, r2) \<Longrightarrow>
   GetNextInternal api ds it =
     Some (\<lparr>returned = DataLoss ''Skipping invalid region of a Riegeli/records file: ''
                         (ToString api region),
            out_tensors = [], end_of_sequence = False\<rparr>,
           it\<lparr>reader := Some r2\<rparr>)"
  by (subst GetNextInternal.simps) (simp add: GetNextInternal_read_def)

lemma GetNextInternal_failed:
  "reader it = Some r \<Longrightarrow> ReadRecord api r = (None, r1) \<Longrightarrow>
   Recover api r1 = (None, r2) \<Longrightarrow> Close api r2 = (False, r3) \<Longrightarrow>
   GetNextInternal api ds it =
     Some (\<lparr>returned = \<lparr>code = code (status api r3), message = message (status api r3)\<rparr>,
            out_tensors = [],
            end_of_sequence = (current_file_index it + 1 = length (filenames ds))\<rparr>,
           it\<lparr>reader := None, current_file_index := current_file_index it + 1\<rparr>)"
  by (subst GetNextInternal.simps) (simp add: GetNextInternal_read_def)

lemma GetNextInternal_end_of_file:
  "reader it = Some r \<Longrightarrow> ReadRecord api r = (None, r1) \<Longrightarrow>
   Recover api r1 = (None, r2) \<Longrightarrow> Close api r2 = (True, r3) \<Longrightarrow>
   GetNextInternal api ds it =
     GetNextInternal api ds
       (it\<lparr>reader := None, current_file_index := current_file_index it + 1\<rparr>)"
proof -
  assume a: "reader it = Some r" "ReadRecord api r = (None, r1)"
    "Recover api r1 = (None, r2)" "Close api r2 = (True, r3)"
  let ?it1 = "it\<lparr>reader := None, current_file_index := current_file_index it + 1\<rparr>"
  have l: "GetNextInternal_read api ds it = Inr ?it1"
    using a by (simp add: GetNextInternal_read_def)
  have r: "GetNextInternal_read api ds ?it1 = Inr ?it1"
    by (simp add: GetNextInternal_read_None)
  show ?thesis
    by (rule trans [OF GetNextInternal.simps [of api ds it]],
        rule trans [OF _ GetNextInternal.simps [of api ds ?it1, symmetric]])
       (simp only: l r sum.case)
qed

lemma GetNextInternal_Inl:
  "GetNextInternal_read api ds it = Inl res \<Longrightarrow> GetNextInternal api ds it = Some res"
  by (subst GetNextInternal.simps) simp

lemma GetNextInternal_Inr:
  "GetNextInternal_read api ds it = Inr it1 \<Longrightarrow>
   GetNextInternal api ds it =
     (if current_file_index it1 = length (filenames ds) then
        Some (\<lparr>returned = Status_OK, out_tensors = [], end_of_sequence = True\<rparr>, it1)
      else
        (case OpenFile api ds it1 of
           None \<Rightarrow> None
         | Some it2 \<Rightarrow> GetNextInternal api ds it2))"
  by (subst GetNextInternal.simps) simp

lemma GetNextInternal_at_end:
  "GetNextInternal api ds \<lparr>current_file_index = length (filenames ds), reader = None\<rparr> =
     Some (\<lparr>returned = Status_OK, out_tensors = [], end_of_sequence = True\<rparr>,
           \<lparr>current_file_index = length (filenames ds), reader = None\<rparr>)"
  by (subst GetNextInternal_closed) simp_all

lemma GetNextInternal_open_next:
  "i < length (filenames ds) \<Longrightarrow>
   GetNextInternal api ds \<lparr>current_file_index = i, reader = None\<rparr> =
     GetNextInternal api ds
       \<lparr>current_file_index = i, reader = Some (FileReader api (filenames ds ! i))\<rparr>"
  by (subst GetNextInternal_closed) simp_all

subsection \<open>The invariants\<close>

lemma Invariants_GetNextInternal_read:
  "Invariants ds it \<Longrightarrow> GetNextInternal_read api ds it = Inl (out, it1) \<Longrightarrow> Invariants ds it1"
  by (auto simp: GetNextInternal_read_def Invariants_def Let_def
           split: option.splits prod.splits if_splits)

lemma Invariants_GetNextInternal:
  "Invariants ds it \<Longrightarrow> GetNextInternal api ds it = Some (out, it1) \<Longrightarrow> Invariants ds it1"
proof (induction api ds it rule: GetNextInternal.induct)
  case (1 api ds it)
  show ?case
  proof (cases "GetNextInternal_read api ds it")
    case (Inl res)
    with "1.prems"(2) have "res = (out, it1)"
      by (simp add: GetNextInternal_Inl)
    with Inl "1.prems"(1) show ?thesis
      by (simp add: Invariants_GetNextInternal_read)
  next
    case (Inr it0)
    note r = GetNextInternal_read_Inr [OF Inr]
    note u = GetNextInternal_Inr [OF Inr]
    show ?thesis
    proof (cases "current_file_index it0 = length (filenames ds)")
      case True
      with u "1.prems"(2) have "it1 = it0" by simp
      with True r show ?thesis by (simp add: Invariants_def)
    next
      case False
      with u "1.prems"(2) obtain it2 where o: "OpenFile api ds it0 = Some it2"
        and g: "GetNextInternal api ds it2 = Some (out, it1)"
        by (cases "OpenFile api ds it0") simp_all
      from OpenFile_Some [OF o] have "Invariants ds it2"
        by (simp add: Invariants_def)
      from "1.IH" [OF Inr False o this g] show ?thesis .
    qed
  qed
qed

lemma GetNextInternal_defined:
  "Invariants ds it \<Longrightarrow> \<exists>res. GetNextInternal api ds it = Some res"
proof (induction api ds it rule: GetNextInternal.induct)
  case (1 api ds it)
  show ?case
  proof (cases "GetNextInternal_read api ds it")
    case (Inl res)
    then show ?thesis by (simp add: GetNextInternal_Inl)
  next
    case (Inr it0)
    note r = GetNextInternal_read_Inr [OF Inr]
    note u = GetNextInternal_Inr [OF Inr]
    show ?thesis
    proof (cases "current_file_index it0 = length (filenames ds)")
      case True
      with u show ?thesis by simp
    next
      case False
      with r "1.prems" have lt: "current_file_index it0 < length (filenames ds)"
        by (auto simp: Invariants_def split: if_splits)
      then obtain it2 where o: "OpenFile api ds it0 = Some it2"
        by (auto simp: OpenFile_def)
      from OpenFile_Some [OF o] have "Invariants ds it2"
        by (simp add: Invariants_def)
      from "1.IH" [OF Inr False o this] obtain res where
        "GetNextInternal api ds it2 = Some res" ..
      with u False o show ?thesis by simp
    qed
  qed
qed

lemma RestoreInternal_defined:
  "\<exists>s it1. RestoreInternal api pr ds rd it0 = Some (s, it1)"
  by (auto simp: RestoreInternal_def OpenFile_def Let_def split: prod.splits option.splits)

lemma Invariants_RestoreInternal:
  "RestoreInternal api pr ds rd it0 = Some (s, it1) \<Longrightarrow> Invariants ds it1"
  by (auto simp: RestoreInternal_def OpenFile_def Let_def Invariants_def
           split: prod.splits option.splits if_splits)

lemma increment_in_range:
  assumes "Invariants ds it" and "reader it \<noteq> None" and "length (filenames ds) < 2 ^ 64"
  shows "current_file_index it + 1 \<le> length (filenames ds)"
    and "(current_file_index it + 1) mod 2 ^ 64 = current_file_index it + 1"
proof -
  from assms(1,2) show "current_file_index it + 1 \<le> length (filenames ds)"
    by (auto simp: Invariants_def)
  with assms(3) show "(current_file_index it + 1) mod 2 ^ 64 = current_file_index it + 1"
    by simp
qed

lemma Invariants_init: "Invariants ds Iterator_init"
  by (simp add: Invariants_def Iterator_init_def)

lemma reachable_Invariants: "reachable api pr ds it \<Longrightarrow> Invariants ds it"
  by (induction rule: reachable.induct)
     (auto intro: Invariants_init Invariants_GetNextInternal Invariants_RestoreInternal)

subsection \<open>Saving and restoring cursors\<close>

lemma sint_IntCast_int64:
  assumes "n < 2 ^ 63"
  shows "sint (IntCast_int64 n) = int n"
proof -
  have "int n < 2 ^ 63" using assms by (metis of_nat_less_numeral_power_cancel_iff)
  moreover have "- (2 ^ 63) \<le> int n" by (rule order_trans [of _ 0]) simp_all
  ultimately have "signed_take_bit 63 (int n) = int n"
    by (rule signed_take_bit_int_eq_self [rotated])
  then show ?thesis
    by (simp add: IntCast_int64_def signed_of_nat)
qed

lemma SaveInternal_iterator: "snd (snd (SaveInternal api pr wapi w it)) = it"
  by (simp add: SaveInternal_def Let_def split: prod.splits option.splits)

lemma SaveInternal_index_fails:
  "\<not> ok (fst (index_write pr wapi w it)) \<Longrightarrow>
   SaveInternal api pr wapi w it =
     (fst (index_write pr wapi w it), snd (index_write pr wapi w it), it)"
  by (auto simp: SaveInternal_def index_write_def split: prod.splits)

lemma SaveInternal_no_reader:
  "ok (fst (index_write pr wapi w it)) \<Longrightarrow> reader it = None \<Longrightarrow>
   SaveInternal api pr wapi w it = (Status_OK, snd (index_write pr wapi w it), it)"
  by (auto simp: SaveInternal_def index_write_def split: prod.splits)

lemma SaveInternal_reader:
  "ok (fst (index_write pr wapi w it)) \<Longrightarrow> reader it = Some r \<Longrightarrow>
   SaveInternal api pr wapi w it =
     (if ok (fst (pos_write api pr wapi w it r)) then Status_OK
      else fst (pos_write api pr wapi w it r),
      snd (pos_write api pr wapi w it r), it)"
  by (auto simp: SaveInternal_def index_write_def pos_write_def split: prod.splits)

lemma SaveInternal_OK:
  assumes "ok (fst (index_write pr wapi w it))"
    and "\<forall>r. reader it = Some r \<longrightarrow> ok (fst (pos_write api pr wapi w it r))"
  shows "fst (SaveInternal api pr wapi w it) = Status_OK"
proof (cases "reader it")
  case None
  with assms(1) show ?thesis by (simp add: SaveInternal_no_reader)
next
  case (Some r)
  with assms show ?thesis by (simp add: SaveInternal_reader)
qed

lemma ok_Status_OK: "ok Status_OK"
  by (simp add: ok_def Status_OK_def)

lemma SaveInternal_holds_cursor:
  assumes c: "checkpoint_roundtrip pr wapi rd_of w"
    and s: "ok (fst (SaveInternal api pr wapi w it))"
  shows "holds_cursor pr (rd_of (fst (snd (SaveInternal api pr wapi w it)))) (cursor_of api it)"
proof -
  let ?k1 = "full_name pr ''current_file_index''" and ?k2 = "full_name pr ''current_pos''"
  let ?v = "IntCast_int64 (current_file_index it)"
  obtain s1 w1 where w1: "WriteScalar_int64 wapi ?k1 ?v w = (s1, w1)"
    by (cases "WriteScalar_int64 wapi ?k1 ?v w")
  have ok1: "ok s1"
    using s w1 by (auto simp: SaveInternal_def split: if_splits)
  from c w1 ok1 have r1: "ok (fst (ReadScalar_int64 (rd_of w1) ?k1))"
    "snd (ReadScalar_int64 (rd_of w1) ?k1) = ?v" "\<not> Contains (rd_of w1) ?k2"
    unfolding checkpoint_roundtrip_def by (metis fst_conv snd_conv)+
  show ?thesis
  proof (cases "reader it")
    case None
    with w1 ok1 have "fst (snd (SaveInternal api pr wapi w it)) = w1"
      by (simp add: SaveInternal_def)
    with r1 None show ?thesis
      by (simp add: holds_cursor_def cursor_of_def)
  next
    case (Some r)
    let ?b = "ToBytes api (pos api r)"
    obtain s2 w2 where w2: "WriteScalar_string wapi ?k2 ?b w1 = (s2, w2)"
      by (cases "WriteScalar_string wapi ?k2 ?b w1")
    have ok2: "ok s2"
      using s w1 ok1 Some w2 by (auto simp: SaveInternal_def split: if_splits)
    from c w2 ok2 have r2: "Contains (rd_of w2) ?k2"
      "ok (fst (ReadScalar_string (rd_of w2) ?k2))"
      "snd (ReadScalar_string (rd_of w2) ?k2) = ?b"
      "ReadScalar_int64 (rd_of w2) ?k1 = ReadScalar_int64 (rd_of w1) ?k1"
      unfolding checkpoint_roundtrip_def by (metis fst_conv snd_conv)+
    from w1 ok1 Some w2 ok2 have "fst (snd (SaveInternal api pr wapi w it)) = w2"
      by (simp add: SaveInternal_def)
    with r1 r2 Some show ?thesis
      by (simp add: holds_cursor_def cursor_of_def)
  qed
qed

lemma holds_cursor_RestoreInternal:
  assumes "holds_cursor pr rd c"
  shows "RestoreInternal api pr ds rd it0 =
     (if sint (file_index c) < 0 \<or> nat (sint (file_index c)) > length (filenames ds) then
        Some (Internal ''current_file_index out of range'',
              \<lparr>current_file_index = 0, reader = None\<rparr>)
      else
        (case byte_position c of
           None \<Rightarrow>
             Some (Status_OK,
                   \<lparr>current_file_index = nat (sint (file_index c)), reader = None\<rparr>)
         | Some b \<Rightarrow>
             if nat (sint (file_index c)) = length (filenames ds) then
               Some (Internal ''current_file_index out of range'',
                     \<lparr>current_file_index = nat (sint (file_index c)), reader = None\<rparr>)
             else
               (case FromBytes api b of
                  None \<Rightarrow>
                    Some (Internal ''current_pos is not a valid RecordPosition'',
                          \<lparr>current_file_index = nat (sint (file_index c)), reader = None\<rparr>)
                | Some p \<Rightarrow>
                    Some (Status_OK,
                          \<lparr>current_file_index = nat (sint (file_index c)),
                           reader = Some (snd (Seek api p
                             (FileReader api (filenames ds ! nat (sint (file_index c))))))\<rparr>))))"
  using assms
  by (cases "ReadScalar_int64 rd (full_name pr ''current_file_index'')";
      cases "ReadScalar_string rd (full_name pr ''current_pos'')")
     (auto simp: RestoreInternal_def holds_cursor_def OpenFile_def Let_def
           split: option.splits)

lemma RestoreInternal_cursor_of:
  assumes h: "holds_cursor pr rd (cursor_of api it)"
    and i: "Invariants ds it" and l: "length (filenames ds) < 2 ^ 63"
    and f: "\<forall>p. FromBytes api (ToBytes api p) = Some p"
  shows "RestoreInternal api pr ds rd it0 =
           Some (Status_OK,
                 \<lparr>current_file_index = current_file_index it,
                  reader = map_option
                    (\<lambda>r. snd (Seek api (pos api r)
                             (FileReader api (filenames ds ! current_file_index it))))
                    (reader it)\<rparr>)"
proof -
  from i l have "current_file_index it < 2 ^ 63" by (simp add: Invariants_def)
  then have s: "sint (file_index (cursor_of api it)) = int (current_file_index it)"
    by (simp add: cursor_of_def sint_IntCast_int64)
  from i have "current_file_index it \<le> length (filenames ds)"
    "reader it \<noteq> None \<Longrightarrow> current_file_index it \<noteq> length (filenames ds)"
    by (auto simp: Invariants_def)
  with s f show ?thesis
    by (subst holds_cursor_RestoreInternal [OF h])
       (auto simp: cursor_of_def split: option.splits)
qed

subsection \<open>Calling until the end\<close>

lemma produce_until_end_cong:
  "GetNextInternal api ds it = GetNextInternal api ds it' \<Longrightarrow>
   produce_until_end api ds n it = produce_until_end api ds n it'"
  by (cases n) simp_all

lemma produce_until_end_at_end:
  "produce_until_end api ds n \<lparr>current_file_index = length (filenames ds), reader = None\<rparr> =
     Some outs \<Longrightarrow> records_of outs = []"
  by (cases n) (auto simp: GetNextInternal_at_end records_of_def)

lemma produce_until_end_unique:
  "produce_until_end api ds n it = Some outs \<Longrightarrow>
   produce_until_end api ds m it = Some outs' \<Longrightarrow> outs = outs'"
proof (induction n arbitrary: m it outs outs')
  case 0
  then show ?case by simp
next
  case (Suc n)
  from Suc.prems(2) obtain m' where m: "m = Suc m'" by (cases m) simp_all
  from Suc.prems(1) obtain out it1 where g: "GetNextInternal api ds it = Some (out, it1)"
    by (cases "GetNextInternal api ds it") auto
  show ?case
  proof (cases "end_of_sequence out")
    case True
    with Suc.prems g m show ?thesis by simp
  next
    case False
    with Suc.prems g m obtain t t' where
      "produce_until_end api ds n it1 = Some t" "outs = out # t"
      "produce_until_end api ds m' it1 = Some t'" "outs' = out # t'"
      by auto
    with Suc.IH show ?thesis by blast
  qed
qed

lemma produce_until_end_file:
  assumes nxt: "produce_until_end api ds m \<lparr>current_file_index = Suc i, reader = None\<rparr> = Some outs"
  shows "file_records api k r = Some xs \<Longrightarrow>
         \<exists>n outs'. produce_until_end api ds n \<lparr>current_file_index = i, reader = Some r\<rparr> =
                      Some outs' \<and>
                    records_of outs' = xs @ records_of outs"
proof (induction k arbitrary: r xs)
  case 0
  then show ?case by simp
next
  case (Suc k)
  let ?it = "\<lparr>current_file_index = i, reader = Some r\<rparr>"
  obtain rec r1 where rd: "ReadRecord api r = (rec, r1)" by (cases "ReadRecord api r")
  show ?case
  proof (cases rec)
    case (Some v)
    with Suc.prems rd obtain xs' where x: "file_records api k r1 = Some xs'" "xs = v # xs'"
      by auto
    from Suc.IH [OF x(1)] obtain n outs' where
      p: "produce_until_end api ds n \<lparr>current_file_index = i, reader = Some r1\<rparr> = Some outs'"
         "records_of outs' = xs' @ records_of outs" by blast
    have "GetNextInternal api ds ?it =
            Some (\<lparr>returned = Status_OK, out_tensors = [v], end_of_sequence = False\<rparr>,
                  \<lparr>current_file_index = i, reader = Some r1\<rparr>)"
      using rd Some by (subst GetNextInternal_record [where r = r and v = v and ?r1.0 = r1]) simp_all
    with p x(2) have
      "produce_until_end api ds (Suc n) ?it =
         Some (\<lparr>returned = Status_OK, out_tensors = [v], end_of_sequence = False\<rparr> # outs')"
      "records_of (\<lparr>returned = Status_OK, out_tensors = [v], end_of_sequence = False\<rparr> # outs')
         = xs @ records_of outs"
      by (simp_all add: records_of_def)
    then show ?thesis by blast
  next
    case None
    obtain sk r2 where rc: "Recover api r1 = (sk, r2)" by (cases "Recover api r1")
    show ?thesis
    proof (cases sk)
      case (Some region)
      with Suc.prems rd None rc have x: "file_records api k r2 = Some xs" by simp
      from Suc.IH [OF x] obtain n outs' where
        p: "produce_until_end api ds n \<lparr>current_file_index = i, reader = Some r2\<rparr> = Some outs'"
           "records_of outs' = xs @ records_of outs" by blast
      let ?o = "\<lparr>returned = DataLoss ''Skipping invalid region of a Riegeli/records file: ''
                    (ToString api region), out_tensors = [], end_of_sequence = False\<rparr>"
      have "GetNextInternal api ds ?it =
              Some (?o, \<lparr>current_file_index = i, reader = Some r2\<rparr>)"
        using rd None rc Some
        by (subst GetNextInternal_skipped
              [where r = r and ?r1.0 = r1 and region = region and ?r2.0 = r2]) simp_all
      with p have "produce_until_end api ds (Suc n) ?it = Some (?o # outs')"
        "records_of (?o # outs') = xs @ records_of outs"
        by (simp_all add: records_of_def)
      then show ?thesis by blast
    next
      case sk_None: None
      with Suc.prems rd None rc have x: "xs = []" by simp
      obtain c r3 where cl: "Close api r2 = (c, r3)" by (cases "Close api r2")
      show ?thesis
      proof (cases c)
        case True
        have "GetNextInternal api ds ?it =
                GetNextInternal api ds \<lparr>current_file_index = Suc i, reader = None\<rparr>"
          using rd None rc sk_None cl True
          by (subst GetNextInternal_end_of_file
                [where r = r and ?r1.0 = r1 and ?r2.0 = r2 and ?r3.0 = r3]) simp_all
        from produce_until_end_cong [OF this, of m] nxt x show ?thesis by auto
      next
        case False
        let ?o = "\<lparr>returned = status api r3, out_tensors = [],
                   end_of_sequence = (i + 1 = length (filenames ds))\<rparr>"
        have g: "GetNextInternal api ds ?it =
                Some (?o, \<lparr>current_file_index = Suc i, reader = None\<rparr>)"
          using rd None rc sk_None cl False
          by (subst GetNextInternal_failed
                [where r = r and ?r1.0 = r1 and ?r2.0 = r2 and ?r3.0 = r3]) simp_all
        show ?thesis
        proof (cases "Suc i = length (filenames ds)")
          case True
          with nxt have "records_of outs = []"
            by (simp add: produce_until_end_at_end)
          moreover from g True have "produce_until_end api ds (Suc 0) ?it = Some [?o]"
            by simp
          moreover have "records_of [?o] = []" by (simp add: records_of_def)
          ultimately show ?thesis using x by (metis append_Nil)
        next
          case False
          with g nxt have "produce_until_end api ds (Suc m) ?it = Some (?o # outs)"
            by simp
          moreover have "records_of (?o # outs) = xs @ records_of outs"
            using x by (simp add: records_of_def)
          ultimately show ?thesis by blast
        qed
      qed
    qed
  qed
qed

lemma produce_until_end_files:
  "i \<le> length (filenames ds) \<Longrightarrow>
   all_records api k (drop i (filenames ds)) = Some recs \<Longrightarrow>
   \<exists>n outs. produce_until_end api ds n \<lparr>current_file_index = i, reader = None\<rparr> = Some outs \<and>
            records_of outs = recs"
proof (induction i arbitrary: recs rule: inc_induct)
  case base
  then have "recs = []" by simp
  moreover have "produce_until_end api ds (Suc 0)
                   \<lparr>current_file_index = length (filenames ds), reader = None\<rparr> =
                 Some [\<lparr>returned = Status_OK, out_tensors = [], end_of_sequence = True\<rparr>]"
    by (simp add: GetNextInternal_at_end)
  moreover have "records_of [\<lparr>returned = Status_OK, out_tensors = [], end_of_sequence = True\<rparr>]
                   = []"
    by (simp add: records_of_def)
  ultimately show ?case by metis
next
  case (step i)
  from step.hyps(2) have d: "drop i (filenames ds) = filenames ds ! i # drop (Suc i) (filenames ds)"
    by (simp add: Cons_nth_drop_Suc)
  with step.prems obtain xs ys where
    x: "file_records api k (FileReader api (filenames ds ! i)) = Some xs"
    and y: "all_records api k (drop (Suc i) (filenames ds)) = Some ys"
    and r: "recs = xs @ ys"
    by (auto split: option.splits)
  from step.IH [OF y] obtain m outs where
    p: "produce_until_end api ds m \<lparr>current_file_index = Suc i, reader = None\<rparr> = Some outs"
       "records_of outs = ys" by blast
  from produce_until_end_file [OF p(1) x] obtain n outs' where
    q: "produce_until_end api ds n
          \<lparr>current_file_index = i, reader = Some (FileReader api (filenames ds ! i))\<rparr> = Some outs'"
       "records_of outs' = xs @ records_of outs" by blast
  from produce_until_end_cong [OF GetNextInternal_open_next [OF step.hyps(2)], of api n] q p(2) r
  show ?case by auto
qed

subsection \<open>Iterators that behave alike\<close>

lemma same_behaviour_refl: "same_behaviour api r r"
  by (coinduction arbitrary: r) auto

lemma same_behaviourD:
  assumes "same_behaviour api r r'"
  shows "fst (ReadRecord api r) = fst (ReadRecord api r')"
    and "same_behaviour api (snd (ReadRecord api r)) (snd (ReadRecord api r'))"
    and "fst (Recover api r) = fst (Recover api r')"
    and "same_behaviour api (snd (Recover api r)) (snd (Recover api r'))"
    and "fst (Close api r) = fst (Close api r')"
    and "status api (snd (Close api r)) = status api (snd (Close api r'))"
  using assms by (auto elim: same_behaviour.cases)

lemma same_iterator_read:
  assumes "same_iterator api it it'"
  shows "rel_sum (rel_prod (=) (same_iterator api)) (same_iterator api)
           (GetNextInternal_read api ds it) (GetNextInternal_read api ds it')"
proof (cases "reader it")
  case None
  with assms have "reader it' = None" by (simp add: same_iterator_def)
  with None assms show ?thesis by (simp add: GetNextInternal_read_None)
next
  case (Some r)
  with assms obtain r' where r': "reader it' = Some r'" and s: "same_behaviour api r r'"
    and i: "current_file_index it = current_file_index it'"
    by (auto simp: same_iterator_def option_rel_Some1)
  obtain rec r1 where a: "ReadRecord api r = (rec, r1)" by (cases "ReadRecord api r")
  obtain rec' r1' where a': "ReadRecord api r' = (rec', r1')" by (cases "ReadRecord api r'")
  from same_behaviourD(1,2) [OF s] a a' have e1: "rec' = rec" and s1: "same_behaviour api r1 r1'"
    by simp_all
  obtain sk r2 where b: "Recover api r1 = (sk, r2)" by (cases "Recover api r1")
  obtain sk' r2' where b': "Recover api r1' = (sk', r2')" by (cases "Recover api r1'")
  from same_behaviourD(3,4) [OF s1] b b' have e2: "sk' = sk" and s2: "same_behaviour api r2 r2'"
    by simp_all
  obtain c r3 where c: "Close api r2 = (c, r3)" by (cases "Close api r2")
  obtain c' r3' where c': "Close api r2' = (c', r3')" by (cases "Close api r2'")
  from same_behaviourD(5,6) [OF s2] c c' have e3: "c' = c" and s3: "status api r3' = status api r3"
    by simp_all
  show ?thesis
    using Some r' i a a' e1 s1 b b' e2 s2 c c' e3 s3
    by (simp add: GetNextInternal_read_def same_iterator_def split: option.splits)
qed

lemma same_iterator_GetNextInternal:
  "same_iterator api it it' \<Longrightarrow>
   rel_option (rel_prod (=) (same_iterator api))
     (GetNextInternal api ds it) (GetNextInternal api ds it')"
proof (induction api ds it arbitrary: it' rule: GetNextInternal.induct)
  case (1 api ds it)
  note rd = same_iterator_read [OF "1.prems", of ds]
  show ?case
  proof (cases "GetNextInternal_read api ds it")
    case (Inl res)
    with rd obtain res' where "GetNextInternal_read api ds it' = Inl res'"
      "rel_prod (=) (same_iterator api) res res'"
      by (cases "GetNextInternal_read api ds it'") simp_all
    with Inl show ?thesis by (simp add: GetNextInternal_Inl)
  next
    case (Inr it1)
    with rd obtain it1' where r': "GetNextInternal_read api ds it' = Inr it1'"
      and s1: "same_iterator api it1 it1'"
      by (cases "GetNextInternal_read api ds it'") simp_all
    note n = GetNextInternal_read_Inr [OF Inr] GetNextInternal_read_Inr [OF r']
    note u = GetNextInternal_Inr [OF Inr] GetNextInternal_Inr [OF r']
    from s1 have i: "current_file_index it1' = current_file_index it1"
      by (simp add: same_iterator_def)
    show ?thesis
    proof (cases "current_file_index it1 = length (filenames ds)")
      case True
      with u s1 i show ?thesis by simp
    next
      case False
      show ?thesis
      proof (cases "OpenFile api ds it1")
        case None
        with i have "OpenFile api ds it1' = None"
          by (simp add: OpenFile_def split: if_splits)
        with None u False i show ?thesis by simp
      next
        case (Some it2)
        with i obtain it2' where o': "OpenFile api ds it1' = Some it2'"
          and s2: "same_iterator api it2 it2'"
          by (auto simp: OpenFile_def same_iterator_def same_behaviour_refl split: if_splits)
        from "1.IH" [OF Inr False Some s2] u False i Some o'
        show ?thesis by simp
      qed
    qed
  qed
qed

lemma same_iterator_GetNext_calls:
  "same_iterator api it it' \<Longrightarrow>
   map_option fst (GetNext_calls api ds n it) = map_option fst (GetNext_calls api ds n it')"
proof (induction n arbitrary: it it')
  case 0
  then show ?case by simp
next
  case (Suc n)
  note g = same_iterator_GetNextInternal [OF Suc.prems, of ds]
  show ?case
  proof (cases "GetNextInternal api ds it")
    case None
    with g show ?thesis by simp
  next
    case (Some res)
    obtain out it1 where res: "res = (out, it1)" by (cases res)
    with g Some obtain it1' where g': "GetNextInternal api ds it' = Some (out, it1')"
      and s1: "same_iterator api it1 it1'"
      by (auto simp: option_rel_Some1)
    from Suc.IH [OF s1] Some res g' show ?thesis
      by (cases "GetNext_calls api ds n it1"; cases "GetNext_calls api ds n it1'") auto
  qed
qed

lemma same_iterator_produce_until_end:
  "same_iterator api it it' \<Longrightarrow>
   produce_until_end api ds n it = produce_until_end api ds n it'"
proof (induction n arbitrary: it it')
  case 0
  then show ?case by simp
next
  case (Suc n)
  note g = same_iterator_GetNextInternal [OF Suc.prems, of ds]
  show ?case
  proof (cases "GetNextInternal api ds it")
    case None
    with g show ?thesis by simp
  next
    case (Some res)
    obtain out it1 where res: "res = (out, it1)" by (cases res)
    with g Some obtain it1' where g': "GetNextInternal api ds it' = Some (out, it1')"
      and s1: "same_iterator api it1 it1'"
      by (auto simp: option_rel_Some1)
    from Suc.IH [OF s1] Some res g' show ?thesis by simp
  qed
qed

subsection \<open>The in-memory source, evaluated\<close>

lemma mem_api_simps:
  "FileReader mem_api name = mem_at name 0"
  "ReadRecord mem_api = mem_ReadRecord"
  "Recover mem_api = mem_Recover"
  "Close mem_api r = (mem_healthy r, r)"
  "status mem_api = mem_status"
  "pos mem_api = offset"
  "Seek mem_api p (mem_at name 0) = (True, mem_sought name p)"
  "ToString mem_api d = d"
  "ToBytes mem_api p = replicate p (CHR ''p'')"
  "FromBytes mem_api = mem_FromBytes"
  by (simp_all add: mem_api_def mem_at_def mem_sought_def)

lemma mem_at_simps:
  "mem_ReadRecord (mem_at ''a'' 0) = (Some ''a1'', mem_at ''a'' 1)"
  "mem_ReadRecord (mem_at ''a'' 1) = (None, mem_at ''a'' 1)"
  "mem_Recover (mem_at ''a'' 1) = (Some ''[1..2)'', mem_at ''a'' 2)"
  "mem_ReadRecord (mem_at ''a'' 2) = (Some ''a2'', mem_at ''a'' 3)"
  "mem_ReadRecord (mem_at ''a'' 3) = (None, mem_at ''a'' 3)"
  "mem_Recover (mem_at ''a'' 3) = (None, mem_at ''a'' 3)"
  "mem_healthy (mem_at ''a'' 3) = True"
  "mem_ReadRecord (mem_at ''b'' 0) = (Some ''b1'', mem_at ''b'' 1)"
  "mem_ReadRecord (mem_at ''b'' 1) = (None, mem_at ''b'' 1)"
  "mem_Recover (mem_at ''b'' 1) = (None, mem_at ''b'' 1)"
  "mem_healthy (mem_at ''b'' 1) = True"
  "mem_ReadRecord (mem_at ''c'' 0) = (None, mem_at ''c'' 0)"
  "mem_Recover (mem_at ''c'' 0) = (None, mem_at ''c'' 0)"
  "mem_healthy (mem_at ''c'' 0) = False"
  by (simp_all add: mem_ReadRecord_def mem_Recover_def mem_healthy_def mem_at_def mem_files_def)

lemma mem_sought_simps:
  "mem_ReadRecord (mem_sought ''b'' 0) = (Some ''b1'', mem_sought ''b'' 1)"
  "mem_ReadRecord (mem_sought ''c'' 0) = (None, mem_sought ''c'' 0)"
  "mem_Recover (mem_sought ''c'' 0) = (None, mem_sought ''c'' 0)"
  "mem_healthy (mem_sought ''c'' 0) = False"
  by (simp_all add: mem_ReadRecord_def mem_Recover_def mem_healthy_def mem_sought_def
        mem_files_def)

lemma mem_same_behaviour:
  "contents r = contents r' \<Longrightarrow> offset r = offset r' \<Longrightarrow> same_behaviour mem_api r r'"
proof (coinduction arbitrary: r r')
  case same_behaviour
  then show ?case
    by (auto simp: mem_api_def mem_ReadRecord_def mem_Recover_def mem_healthy_def
          mem_status_def split: block.splits)
qed

lemma mem_checkpoint_roundtrip: "checkpoint_roundtrip mem_params mem_wapi mem_rd_of []"
  by (simp add: checkpoint_roundtrip_def mem_params_def mem_wapi_def mem_rd_of_def
        ok_def Status_OK_def)

lemma mem_holds_cursor_index:
  "holds_cursor mem_params (mem_rd_of [(''Riegeli:current_file_index'', Inl v)])
     \<lparr>file_index = v, byte_position = None\<rparr>"
  by (simp add: holds_cursor_def mem_params_def mem_rd_of_def ok_def Status_OK_def)

lemma mem_holds_cursor_pos:
  "holds_cursor mem_params
     (mem_rd_of [(''Riegeli:current_pos'', Inr b), (''Riegeli:current_file_index'', Inl v)])
     \<lparr>file_index = v, byte_position = Some b\<rparr>"
  by (simp add: holds_cursor_def mem_params_def mem_rd_of_def ok_def Status_OK_def)

lemma mem_SaveInternal:
  "SaveInternal mem_api mem_params mem_wapi w it =
     (Status_OK,
      (case reader it of
         None \<Rightarrow> [(''Riegeli:current_file_index'', Inl (IntCast_int64 (current_file_index it)))]
       | Some r \<Rightarrow>
           [(''Riegeli:current_pos'', Inr (replicate (offset r) (CHR ''p''))),
            (''Riegeli:current_file_index'', Inl (IntCast_int64 (current_file_index it)))]) @ w,
      it)"
  by (simp add: SaveInternal_def mem_params_def mem_wapi_def mem_api_simps ok_def Status_OK_def
           split: option.splits)

section \<open>The claims\<close>

text \<open>
  C1. When the record stream of every file ends (within \<open>k\<close> reads each), calling
  \<^verbatim>\<open>GetNextInternal\<close> from the initial state reaches a call that sets
  \<^verbatim>\<open>*end_of_sequence\<close>, and the tensors of the calls up to it are the records of the
  files' streams, concatenated in the order of the file list; every run to the end yields
  them. Where a file other than the last ends cleanly (the read and the recovery fail, the
  reader closes cleanly), the call does not return at the seam: it is the call on the
  next file, freshly opened.
\<close>

theorem produce_until_end_concatenation:
  "(all_records api k (filenames ds) = Some recs \<longrightarrow>
      (\<exists>n outs. produce_until_end api ds n Iterator_init = Some outs \<and> records_of outs = recs) \<and>
      (\<forall>n outs. produce_until_end api ds n Iterator_init = Some outs \<longrightarrow>
                 records_of outs = recs))
   \<and> (\<forall>i r r1 r2 r3.
         ReadRecord api r = (None, r1) \<longrightarrow> Recover api r1 = (None, r2) \<longrightarrow>
         Close api r2 = (True, r3) \<longrightarrow> Suc i < length (filenames ds) \<longrightarrow>
         GetNextInternal api ds \<lparr>current_file_index = i, reader = Some r\<rparr> =
           GetNextInternal api ds
             \<lparr>current_file_index = Suc i,
              reader = Some (FileReader api (filenames ds ! Suc i))\<rparr>)"
proof (intro conjI impI allI)
  assume a: "all_records api k (filenames ds) = Some recs"
  then have "all_records api k (drop 0 (filenames ds)) = Some recs" by simp
  from produce_until_end_files [OF _ this] obtain n outs where
    p: "produce_until_end api ds n (Iterator_init :: 'a Iterator) = Some outs"
       "records_of outs = recs"
    by (auto simp: Iterator_init_def)
  then show "\<exists>n outs. produce_until_end api ds n (Iterator_init :: 'a Iterator) = Some outs \<and>
                      records_of outs = recs" by blast
  fix n' outs'
  assume "produce_until_end api ds n' (Iterator_init :: 'a Iterator) = Some outs'"
  from produce_until_end_unique [OF this p(1)] p(2)
  show "records_of outs' = recs" by simp
next
  fix i r r1 r2 r3
  assume "ReadRecord api r = (None, r1)" "Recover api r1 = (None, r2)"
    "Close api r2 = (True, r3)" and lt: "Suc i < length (filenames ds)"
  then have "GetNextInternal api ds \<lparr>current_file_index = i, reader = Some r\<rparr> =
             GetNextInternal api ds \<lparr>current_file_index = Suc i, reader = None\<rparr>"
    by (subst GetNextInternal_end_of_file
          [where r = r and ?r1.0 = r1 and ?r2.0 = r2 and ?r3.0 = r3]) simp_all
  with GetNextInternal_open_next [OF lt, of api]
  show "GetNextInternal api ds \<lparr>current_file_index = i, reader = Some r\<rparr> =
          GetNextInternal api ds
            \<lparr>current_file_index = Suc i,
             reader = Some (FileReader api (filenames ds ! Suc i))\<rparr>"
    by simp
qed

theorem produce_until_end_concatenation_witness:
  "all_records mem_api 4 (filenames mem_ds) = Some [''a1'', ''a2'', ''b1'']
   \<and> produce_until_end mem_api mem_ds 5 Iterator_init =
       Some [\<lparr>returned = Status_OK, out_tensors = [''a1''], end_of_sequence = False\<rparr>,
             \<lparr>returned = \<lparr>code = DATA_LOSS,
                  message = ''Skipping invalid region of a Riegeli/records file: [1..2)''\<rparr>,
               out_tensors = [], end_of_sequence = False\<rparr>,
             \<lparr>returned = Status_OK, out_tensors = [''a2''], end_of_sequence = False\<rparr>,
             \<lparr>returned = Status_OK, out_tensors = [''b1''], end_of_sequence = False\<rparr>,
             \<lparr>returned = \<lparr>code = DATA_LOSS, message = ''broken file''\<rparr>,
               out_tensors = [], end_of_sequence = True\<rparr>]
   \<and> records_of (the (produce_until_end mem_api mem_ds 5 Iterator_init)) =
       [''a1'', ''a2'', ''b1'']
   \<and> ReadRecord mem_api (mem_at ''a'' 3) = (None, mem_at ''a'' 3)
   \<and> Recover mem_api (mem_at ''a'' 3) = (None, mem_at ''a'' 3)
   \<and> Close mem_api (mem_at ''a'' 3) = (True, mem_at ''a'' 3)
   \<and> GetNextInternal mem_api mem_ds \<lparr>current_file_index = 0, reader = Some (mem_at ''a'' 3)\<rparr> =
       GetNextInternal mem_api mem_ds \<lparr>current_file_index = 1, reader = Some (mem_at ''b'' 0)\<rparr>"
proof -
  note t = produce_until_end_concatenation
    [of mem_api 4 mem_ds "[''a1'', ''a2'', ''b1'']"]
  have h: "all_records mem_api 4 (filenames mem_ds) = Some [''a1'', ''a2'', ''b1'']"
    by code_simp
  have p: "produce_until_end mem_api mem_ds 5 Iterator_init =
       Some [\<lparr>returned = Status_OK, out_tensors = [''a1''], end_of_sequence = False\<rparr>,
             \<lparr>returned = \<lparr>code = DATA_LOSS,
                  message = ''Skipping invalid region of a Riegeli/records file: [1..2)''\<rparr>,
               out_tensors = [], end_of_sequence = False\<rparr>,
             \<lparr>returned = Status_OK, out_tensors = [''a2''], end_of_sequence = False\<rparr>,
             \<lparr>returned = Status_OK, out_tensors = [''b1''], end_of_sequence = False\<rparr>,
             \<lparr>returned = \<lparr>code = DATA_LOSS, message = ''broken file''\<rparr>,
               out_tensors = [], end_of_sequence = True\<rparr>]"
    by code_simp
  note u = t [THEN conjunct1, rule_format, OF h]
  note v = u [THEN conjunct2, rule_format, OF p]
  have r: "records_of (the (produce_until_end mem_api mem_ds 5 Iterator_init)) =
       [''a1'', ''a2'', ''b1'']"
    by (simp only: p option.sel v)
  have e: "ReadRecord mem_api (mem_at ''a'' 3) = (None, mem_at ''a'' 3)"
    "Recover mem_api (mem_at ''a'' 3) = (None, mem_at ''a'' 3)"
    "Close mem_api (mem_at ''a'' 3) = (True, mem_at ''a'' 3)"
    by (simp_all only: mem_api_simps mem_at_simps)
  have l: "Suc 0 < length (filenames mem_ds)"
    "FileReader mem_api (filenames mem_ds ! Suc 0) = mem_at ''b'' 0"
    by (simp_all add: mem_ds_def mem_api_simps)
  from t [THEN conjunct2, rule_format, OF e l(1)] l(2)
  have s: "GetNextInternal mem_api mem_ds \<lparr>current_file_index = 0, reader = Some (mem_at ''a'' 3)\<rparr> =
       GetNextInternal mem_api mem_ds \<lparr>current_file_index = 1, reader = Some (mem_at ''b'' 0)\<rparr>"
    by simp
  show ?thesis
    by (intro conjI) (fact h p r e s)+
qed

text \<open>
  C2, as the source has it. Restoring a cursor whose file index is greater than the
  number of files returns the status \<^verbatim>\<open>Internal("current_file_index out of range")\<close>
  and leaves the iterator at file index 0 with no reader, whatever its state was:
  lines 191 and 192 reset the iterator before the checkpoint is read.
\<close>

theorem RestoreInternal_index_beyond_files:
  assumes "holds_cursor pr rd c" and "int (length (filenames ds)) < sint (file_index c)"
  shows "RestoreInternal api pr ds rd it0 =
           Some (Internal ''current_file_index out of range'',
                 \<lparr>current_file_index = 0, reader = None\<rparr>)"
  using assms(2) by (subst holds_cursor_RestoreInternal [OF assms(1)]) auto

theorem RestoreInternal_index_beyond_files_witness:
  "holds_cursor mem_params (mem_rd_index 4) \<lparr>file_index = 4, byte_position = None\<rparr>
   \<and> int (length (filenames mem_ds)) < sint (file_index \<lparr>file_index = 4, byte_position = None\<rparr>)
   \<and> RestoreInternal mem_api mem_params mem_ds (mem_rd_index 4) mem_it_b =
       Some (Internal ''current_file_index out of range'',
             \<lparr>current_file_index = 0, reader = None\<rparr>)"
proof -
  have h1: "holds_cursor mem_params (mem_rd_index 4) \<lparr>file_index = 4, byte_position = None\<rparr>"
    unfolding mem_rd_index_def by (rule mem_holds_cursor_index)
  have h2: "int (length (filenames mem_ds))
              < sint (file_index \<lparr>file_index = 4, byte_position = None\<rparr>)"
    by (simp add: mem_ds_def)
  from RestoreInternal_index_beyond_files [OF h1 h2, of mem_api mem_it_b] h1 h2
  show ?thesis by simp
qed

text \<open>
  C2 as it was stated fails: an iterator with the second file open is not left as it
  was by the failed restore.
\<close>

theorem RestoreInternal_index_beyond_files_counterexample:
  "holds_cursor mem_params (mem_rd_index 4) \<lparr>file_index = 4, byte_position = None\<rparr>
   \<and> int (length (filenames mem_ds)) < sint (file_index \<lparr>file_index = 4, byte_position = None\<rparr>)
   \<and> RestoreInternal mem_api mem_params mem_ds (mem_rd_index 4) mem_it_b =
       Some (Internal ''current_file_index out of range'',
             \<lparr>current_file_index = 0, reader = None\<rparr>)
   \<and> \<lparr>current_file_index = 0, reader = None\<rparr> \<noteq> mem_it_b"
proof -
  have h1: "holds_cursor mem_params (mem_rd_index 4) \<lparr>file_index = 4, byte_position = None\<rparr>"
    unfolding mem_rd_index_def by (rule mem_holds_cursor_index)
  have h2: "int (length (filenames mem_ds))
              < sint (file_index \<lparr>file_index = 4, byte_position = None\<rparr>)"
    by (simp add: mem_ds_def)
  have "RestoreInternal mem_api mem_params mem_ds (mem_rd_index 4) mem_it_b =
          Some (Internal ''current_file_index out of range'',
                \<lparr>current_file_index = 0, reader = None\<rparr>)"
    using h2 by (subst holds_cursor_RestoreInternal [OF h1]) auto
  with h1 h2 show ?thesis by (simp add: mem_it_b_def)
qed

text \<open>
  C3. Take a reachable state of an iterator over fewer than \<open>2 ^ 63\<close> files, a
  checkpoint that reads back what is written to it, positions whose bytes decode to
  themselves, and a source where a freshly opened reader of the current file, sought to
  the open reader's position, behaves as the open reader does. When the writes of
  \<^verbatim>\<open>SaveInternal\<close> succeed (the file index, and the position when a reader is open),
  \<^verbatim>\<open>SaveInternal\<close> returns OK. Whenever it returns OK, \<^verbatim>\<open>RestoreInternal\<close> from what
  it wrote returns OK, on the same iterator or on any other of the dataset, and from the
  restored state the calls of \<^verbatim>\<open>GetNextInternal\<close> hand back what they hand back from
  the saved state: the same statuses, tensors and end-of-sequence flags, call by call,
  and the same run to the end.
\<close>

theorem save_restore_same_outputs:
  assumes "reachable api pr ds it" and "length (filenames ds) < 2 ^ 63"
    and "checkpoint_roundtrip pr wapi rd_of w"
    and "\<forall>p. FromBytes api (ToBytes api p) = Some p"
    and "\<forall>r. reader it = Some r \<longrightarrow>
           same_behaviour api
             (snd (Seek api (pos api r) (FileReader api (filenames ds ! current_file_index it))))
             r"
  shows "(ok (fst (index_write pr wapi w it)) \<longrightarrow>
            (\<forall>r. reader it = Some r \<longrightarrow> ok (fst (pos_write api pr wapi w it r))) \<longrightarrow>
            fst (SaveInternal api pr wapi w it) = Status_OK)
         \<and> (ok (fst (SaveInternal api pr wapi w it)) \<longrightarrow>
            (\<exists>it2. (\<forall>it0. RestoreInternal api pr ds
                              (rd_of (fst (snd (SaveInternal api pr wapi w it)))) it0 =
                            Some (Status_OK, it2)) \<and>
                   (\<forall>n. map_option fst (GetNext_calls api ds n it2) =
                        map_option fst (GetNext_calls api ds n it)) \<and>
                   (\<forall>n. produce_until_end api ds n it2 = produce_until_end api ds n it)))"
proof (intro conjI impI)
  assume "ok (fst (index_write pr wapi w it))"
    "\<forall>r. reader it = Some r \<longrightarrow> ok (fst (pos_write api pr wapi w it r))"
  then show "fst (SaveInternal api pr wapi w it) = Status_OK"
    by (rule SaveInternal_OK)
next
  assume s: "ok (fst (SaveInternal api pr wapi w it))"
  let ?w1 = "fst (snd (SaveInternal api pr wapi w it))"
  let ?it2 = "\<lparr>current_file_index = current_file_index it,
              reader = map_option
                (\<lambda>r. snd (Seek api (pos api r)
                         (FileReader api (filenames ds ! current_file_index it))))
                (reader it)\<rparr>"
  from SaveInternal_holds_cursor [OF assms(3) s]
  have h: "holds_cursor pr (rd_of ?w1) (cursor_of api it)" .
  have r: "RestoreInternal api pr ds (rd_of ?w1) it0 = Some (Status_OK, ?it2)" for it0
    by (rule RestoreInternal_cursor_of
          [OF h reachable_Invariants [OF assms(1)] assms(2) assms(4)])
  have "same_iterator api ?it2 it"
    using assms(5) by (cases "reader it") (simp_all add: same_iterator_def)
  then have "(\<forall>n. map_option fst (GetNext_calls api ds n ?it2) =
                map_option fst (GetNext_calls api ds n it)) \<and>
           (\<forall>n. produce_until_end api ds n ?it2 = produce_until_end api ds n it)"
    by (simp add: same_iterator_GetNext_calls same_iterator_produce_until_end)
  with r show "\<exists>it2. (\<forall>it0. RestoreInternal api pr ds (rd_of ?w1) it0 = Some (Status_OK, it2)) \<and>
                   (\<forall>n. map_option fst (GetNext_calls api ds n it2) =
                        map_option fst (GetNext_calls api ds n it)) \<and>
                   (\<forall>n. produce_until_end api ds n it2 = produce_until_end api ds n it)"
    by blast
qed

theorem save_restore_same_outputs_witness:
  "length (filenames mem_ds) < 2 ^ 63
   \<and> checkpoint_roundtrip mem_params mem_wapi mem_rd_of []
   \<and> (\<forall>p. FromBytes mem_api (ToBytes mem_api p) = Some p)
   \<and> reachable mem_api mem_params mem_ds \<lparr>current_file_index = 0, reader = Some (mem_at ''a'' 1)\<rparr>
   \<and> same_behaviour mem_api
        (snd (Seek mem_api (pos mem_api (mem_at ''a'' 1)) (FileReader mem_api (filenames mem_ds ! 0))))
        (mem_at ''a'' 1)
   \<and> ok (fst (index_write mem_params mem_wapi []
                \<lparr>current_file_index = 0, reader = Some (mem_at ''a'' 1)\<rparr>))
   \<and> ok (fst (pos_write mem_api mem_params mem_wapi []
                \<lparr>current_file_index = 0, reader = Some (mem_at ''a'' 1)\<rparr> (mem_at ''a'' 1)))
   \<and> SaveInternal mem_api mem_params mem_wapi []
         \<lparr>current_file_index = 0, reader = Some (mem_at ''a'' 1)\<rparr> =
       (Status_OK,
        [(''Riegeli:current_pos'', Inr ''p''), (''Riegeli:current_file_index'', Inl 0)],
        \<lparr>current_file_index = 0, reader = Some (mem_at ''a'' 1)\<rparr>)
   \<and> RestoreInternal mem_api mem_params mem_ds
         (mem_rd_of [(''Riegeli:current_pos'', Inr ''p''), (''Riegeli:current_file_index'', Inl 0)])
         Iterator_init =
       Some (Status_OK, \<lparr>current_file_index = 0, reader = Some (mem_sought ''a'' 1)\<rparr>)
   \<and> mem_sought ''a'' 1 \<noteq> mem_at ''a'' 1
   \<and> produce_until_end mem_api mem_ds 4
         \<lparr>current_file_index = 0, reader = Some (mem_sought ''a'' 1)\<rparr> =
       produce_until_end mem_api mem_ds 4
         \<lparr>current_file_index = 0, reader = Some (mem_at ''a'' 1)\<rparr>
   \<and> reachable mem_api mem_params mem_ds Iterator_init
   \<and> ok (fst (index_write mem_params mem_wapi [] (Iterator_init :: mem_reader Iterator)))
   \<and> SaveInternal mem_api mem_params mem_wapi [] (Iterator_init :: mem_reader Iterator) =
       (Status_OK, [(''Riegeli:current_file_index'', Inl 0)], Iterator_init)
   \<and> RestoreInternal mem_api mem_params mem_ds
         (mem_rd_of [(''Riegeli:current_file_index'', Inl 0)]) mem_it_b =
       Some (Status_OK, Iterator_init)
   \<and> produce_until_end mem_api mem_ds 5
         (snd (the (RestoreInternal mem_api mem_params mem_ds
                      (mem_rd_of [(''Riegeli:current_file_index'', Inl 0)]) mem_it_b))) =
       produce_until_end mem_api mem_ds 5 Iterator_init
   \<and> reachable mem_api mem_params \<lparr>filenames = [''c'', ''b'']\<rparr>
        \<lparr>current_file_index = 1, reader = None\<rparr>
   \<and> ok (fst (index_write mem_params mem_wapi []
                \<lparr>current_file_index = 1, reader = None :: mem_reader option\<rparr>))
   \<and> SaveInternal mem_api mem_params mem_wapi []
         \<lparr>current_file_index = 1, reader = None :: mem_reader option\<rparr> =
       (Status_OK, [(''Riegeli:current_file_index'', Inl 1)],
        \<lparr>current_file_index = 1, reader = None\<rparr>)
   \<and> RestoreInternal mem_api mem_params \<lparr>filenames = [''c'', ''b'']\<rparr>
         (mem_rd_of [(''Riegeli:current_file_index'', Inl 1)]) Iterator_init =
       Some (Status_OK, \<lparr>current_file_index = 1, reader = None\<rparr>)
   \<and> produce_until_end mem_api \<lparr>filenames = [''c'', ''b'']\<rparr> 2
         (snd (the (RestoreInternal mem_api mem_params \<lparr>filenames = [''c'', ''b'']\<rparr>
                      (mem_rd_of [(''Riegeli:current_file_index'', Inl 1)]) Iterator_init))) =
       produce_until_end mem_api \<lparr>filenames = [''c'', ''b'']\<rparr> 2
         \<lparr>current_file_index = 1, reader = None\<rparr>"
proof -
  let ?k1 = "''Riegeli:current_file_index''" and ?k2 = "''Riegeli:current_pos''"
  let ?i0 = "Iterator_init :: mem_reader Iterator"
  let ?cb = "\<lparr>filenames = [''c'', ''b'']\<rparr>"
  let ?it = "\<lparr>current_file_index = 0, reader = Some (mem_at ''a'' 1)\<rparr>"
  let ?it2 = "\<lparr>current_file_index = 0, reader = Some (mem_sought ''a'' 1)\<rparr>"
  let ?ib = "\<lparr>current_file_index = 1, reader = None :: mem_reader option\<rparr>"
  let ?w = "[(?k2, Inr ''p''), (?k1, Inl 0)]"
  have h2: "length (filenames mem_ds) < 2 ^ 63" by (simp add: mem_ds_def)
  have h2b: "length (filenames ?cb) < 2 ^ 63" by simp
  have h3: "checkpoint_roundtrip mem_params mem_wapi mem_rd_of []"
    by (rule mem_checkpoint_roundtrip)
  have h6: "\<forall>p. FromBytes mem_api (ToBytes mem_api p) = Some p"
    by (simp add: mem_api_simps mem_FromBytes_def list_all_iff)
  have oks: "ok Status_OK" by (rule ok_Status_OK)

  \<comment> \<open>a state with a reader open\<close>
  have "GetNextInternal mem_api mem_ds Iterator_init =
          Some (\<lparr>returned = Status_OK, out_tensors = [''a1''], end_of_sequence = False\<rparr>, ?it)"
    by code_simp
  from reachable_GetNext [OF reachable_init this]
  have a1: "reachable mem_api mem_params mem_ds ?it" .
  have "pos mem_api (mem_at ''a'' 1) = 1"
    "FileReader mem_api (filenames mem_ds ! 0) = mem_at ''a'' 0"
    by (simp_all add: mem_api_simps mem_at_def mem_ds_def)
  then have sk: "snd (Seek mem_api (pos mem_api (mem_at ''a'' 1))
                  (FileReader mem_api (filenames mem_ds ! 0))) = mem_sought ''a'' 1"
    by (simp only: mem_api_simps snd_conv)
  have "same_behaviour mem_api (mem_sought ''a'' 1) (mem_at ''a'' 1)"
    by (rule mem_same_behaviour) (simp_all add: mem_sought_def mem_at_def)
  with sk have a2: "same_behaviour mem_api
        (snd (Seek mem_api (pos mem_api (mem_at ''a'' 1)) (FileReader mem_api (filenames mem_ds ! 0))))
        (mem_at ''a'' 1)"
    by (simp only:)
  then have a2': "\<forall>r. reader ?it = Some r \<longrightarrow>
           same_behaviour mem_api
             (snd (Seek mem_api (pos mem_api r)
                (FileReader mem_api (filenames mem_ds ! current_file_index ?it)))) r"
    by simp
  have a3: "ok (fst (index_write mem_params mem_wapi [] ?it))"
    by (simp add: index_write_def mem_wapi_def oks)
  have a4: "ok (fst (pos_write mem_api mem_params mem_wapi [] ?it (mem_at ''a'' 1)))"
    by (simp add: pos_write_def mem_wapi_def oks)
  then have a4': "\<forall>r. reader ?it = Some r \<longrightarrow>
      ok (fst (pos_write mem_api mem_params mem_wapi [] ?it r))"
    by simp
  note ta = save_restore_same_outputs [OF a1 h2 h3 h6 a2']
  have a5: "SaveInternal mem_api mem_params mem_wapi [] ?it = (Status_OK, ?w, ?it)"
    by (simp add: mem_SaveInternal mem_at_def IntCast_int64_def)
  from ta [THEN conjunct1, THEN mp, OF a3, THEN mp, OF a4']
  have "ok (fst (SaveInternal mem_api mem_params mem_wapi [] ?it))"
    by (simp only: oks)
  from ta [THEN conjunct2, THEN mp, OF this] obtain it2 where
    r: "\<forall>it0. RestoreInternal mem_api mem_params mem_ds
          (mem_rd_of (fst (snd (SaveInternal mem_api mem_params mem_wapi [] ?it)))) it0 =
        Some (Status_OK, it2)"
    and p: "\<forall>n. produce_until_end mem_api mem_ds n it2 = produce_until_end mem_api mem_ds n ?it"
    by blast
  have a6: "RestoreInternal mem_api mem_params mem_ds (mem_rd_of ?w) Iterator_init =
              Some (Status_OK, ?it2)"
    by (subst holds_cursor_RestoreInternal [OF mem_holds_cursor_pos])
       (simp add: mem_ds_def mem_api_simps mem_FromBytes_def)
  from r [rule_format, of Iterator_init, unfolded a5] a6 have "it2 = ?it2" by simp
  with p have a8: "produce_until_end mem_api mem_ds 4 ?it2 =
                   produce_until_end mem_api mem_ds 4 ?it"
    by simp
  have a7: "mem_sought ''a'' 1 \<noteq> mem_at ''a'' 1"
    by (simp add: mem_sought_def mem_at_def)

  \<comment> \<open>the initial state\<close>
  have b1: "reachable mem_api mem_params mem_ds ?i0" by (rule reachable_init)
  have b0: "\<forall>r. reader ?i0 = Some r \<longrightarrow>
           same_behaviour mem_api
             (snd (Seek mem_api (pos mem_api r)
                (FileReader mem_api (filenames mem_ds ! current_file_index ?i0)))) r"
    "\<forall>r. reader ?i0 = Some r \<longrightarrow> ok (fst (pos_write mem_api mem_params mem_wapi [] ?i0 r))"
    by (simp_all add: Iterator_init_def)
  have b2: "ok (fst (index_write mem_params mem_wapi [] ?i0))"
    by (simp add: index_write_def mem_wapi_def oks)
  note tb = save_restore_same_outputs [OF b1 h2 h3 h6 b0(1)]
  have b3: "SaveInternal mem_api mem_params mem_wapi [] ?i0 =
              (Status_OK, [(?k1, Inl 0)], Iterator_init)"
    by (simp add: mem_SaveInternal Iterator_init_def IntCast_int64_def)
  from tb [THEN conjunct1, THEN mp, OF b2, THEN mp, OF b0(2)]
  have "ok (fst (SaveInternal mem_api mem_params mem_wapi [] ?i0))"
    by (simp only: oks)
  from tb [THEN conjunct2, THEN mp, OF this] obtain it3 where
    r3: "\<forall>it0. RestoreInternal mem_api mem_params mem_ds
          (mem_rd_of (fst (snd (SaveInternal mem_api mem_params mem_wapi [] ?i0)))) it0 =
        Some (Status_OK, it3)"
    and p3: "\<forall>n. produce_until_end mem_api mem_ds n it3 = produce_until_end mem_api mem_ds n ?i0"
    by blast
  have b4: "RestoreInternal mem_api mem_params mem_ds (mem_rd_of [(?k1, Inl 0)]) mem_it_b =
              Some (Status_OK, Iterator_init)"
    by (subst holds_cursor_RestoreInternal [OF mem_holds_cursor_index])
       (simp add: mem_ds_def Iterator_init_def)
  from r3 [rule_format, of mem_it_b, unfolded b3] p3 have b5: "produce_until_end mem_api mem_ds 5
         (snd (the (RestoreInternal mem_api mem_params mem_ds
                      (mem_rd_of [(?k1, Inl 0)]) mem_it_b))) =
       produce_until_end mem_api mem_ds 5 Iterator_init"
    by simp

  \<comment> \<open>a state between two files\<close>
  have "GetNextInternal mem_api ?cb Iterator_init =
          Some (\<lparr>returned = \<lparr>code = DATA_LOSS, message = ''broken file''\<rparr>,
                 out_tensors = [], end_of_sequence = False\<rparr>, ?ib)"
    by code_simp
  from reachable_GetNext [OF reachable_init this]
  have c1: "reachable mem_api mem_params ?cb ?ib" .
  have c0: "\<forall>r. reader ?ib = Some r \<longrightarrow>
           same_behaviour mem_api
             (snd (Seek mem_api (pos mem_api r)
                (FileReader mem_api (filenames ?cb ! current_file_index ?ib)))) r"
    "\<forall>r. reader ?ib = Some r \<longrightarrow> ok (fst (pos_write mem_api mem_params mem_wapi [] ?ib r))"
    by simp_all
  have c2: "ok (fst (index_write mem_params mem_wapi [] ?ib))"
    by (simp add: index_write_def mem_wapi_def oks)
  note tc = save_restore_same_outputs [OF c1 h2b h3 h6 c0(1)]
  have c3: "SaveInternal mem_api mem_params mem_wapi [] ?ib = (Status_OK, [(?k1, Inl 1)], ?ib)"
    by (simp add: mem_SaveInternal IntCast_int64_def)
  from tc [THEN conjunct1, THEN mp, OF c2, THEN mp, OF c0(2)]
  have "ok (fst (SaveInternal mem_api mem_params mem_wapi [] ?ib))"
    by (simp only: oks)
  from tc [THEN conjunct2, THEN mp, OF this] obtain it4 where
    r4: "\<forall>it0. RestoreInternal mem_api mem_params ?cb
          (mem_rd_of (fst (snd (SaveInternal mem_api mem_params mem_wapi [] ?ib)))) it0 =
        Some (Status_OK, it4)"
    and p4: "\<forall>n. produce_until_end mem_api ?cb n it4 = produce_until_end mem_api ?cb n ?ib"
    by blast
  have c4: "RestoreInternal mem_api mem_params ?cb (mem_rd_of [(?k1, Inl 1)]) Iterator_init =
              Some (Status_OK, ?ib)"
    by (subst holds_cursor_RestoreInternal [OF mem_holds_cursor_index]) simp
  from r4 [rule_format, of Iterator_init, unfolded c3] p4 have c5: "produce_until_end mem_api ?cb 2
         (snd (the (RestoreInternal mem_api mem_params ?cb
                      (mem_rd_of [(?k1, Inl 1)]) Iterator_init))) =
       produce_until_end mem_api ?cb 2 ?ib"
    by simp
  show ?thesis
    by (intro conjI)
       (fact h2 h3 h6 a1 a2 a3 a4 a5 a6 a7 a8 b1 b2 b3 b4 b5 c1 c2 c3 c4 c5)+
qed

text \<open>
  C4. When \<^verbatim>\<open>ReadRecord\<close> fails and \<^verbatim>\<open>Recover\<close> yields a skipped region, the call
  returns a data-loss status whose message carries the region's description, appends no
  tensor, stores false in \<^verbatim>\<open>*end_of_sequence\<close>, and keeps the file index and the
  recovered reader: the reader is not closed. The next call reads on from that reader:
  when it has a record, the call returns it, at the same file index.
\<close>

theorem GetNextInternal_skips_invalid_region:
  assumes "reader it = Some r" and "ReadRecord api r = (None, r1)"
    and "Recover api r1 = (Some region, r2)"
  shows "GetNextInternal api ds it =
           Some (\<lparr>returned = \<lparr>code = DATA_LOSS,
                     message = ''Skipping invalid region of a Riegeli/records file: ''
                               @ ToString api region\<rparr>,
                  out_tensors = [], end_of_sequence = False\<rparr>,
                 \<lparr>current_file_index = current_file_index it, reader = Some r2\<rparr>)
         \<and> (\<forall>v r3. ReadRecord api r2 = (Some v, r3) \<longrightarrow>
               GetNextInternal api ds
                   \<lparr>current_file_index = current_file_index it, reader = Some r2\<rparr> =
                 Some (\<lparr>returned = Status_OK, out_tensors = [v], end_of_sequence = False\<rparr>,
                       \<lparr>current_file_index = current_file_index it, reader = Some r3\<rparr>))"
  using assms
  by (simp add: GetNextInternal_skipped GetNextInternal_record DataLoss_def)

theorem GetNextInternal_skips_invalid_region_witness:
  "reader \<lparr>current_file_index = 0, reader = Some (mem_at ''a'' 1)\<rparr> = Some (mem_at ''a'' 1)
   \<and> ReadRecord mem_api (mem_at ''a'' 1) = (None, mem_at ''a'' 1)
   \<and> Recover mem_api (mem_at ''a'' 1) = (Some ''[1..2)'', mem_at ''a'' 2)
   \<and> GetNextInternal mem_api mem_ds \<lparr>current_file_index = 0, reader = Some (mem_at ''a'' 1)\<rparr> =
       Some (\<lparr>returned = \<lparr>code = DATA_LOSS,
                 message = ''Skipping invalid region of a Riegeli/records file: [1..2)''\<rparr>,
              out_tensors = [], end_of_sequence = False\<rparr>,
             \<lparr>current_file_index = 0, reader = Some (mem_at ''a'' 2)\<rparr>)
   \<and> GetNextInternal mem_api mem_ds \<lparr>current_file_index = 0, reader = Some (mem_at ''a'' 2)\<rparr> =
       Some (\<lparr>returned = Status_OK, out_tensors = [''a2''], end_of_sequence = False\<rparr>,
             \<lparr>current_file_index = 0, reader = Some (mem_at ''a'' 3)\<rparr>)"
proof -
  let ?it = "\<lparr>current_file_index = 0, reader = Some (mem_at ''a'' 1)\<rparr>"
  have h1: "reader ?it = Some (mem_at ''a'' 1)" by simp
  have h2: "ReadRecord mem_api (mem_at ''a'' 1) = (None, mem_at ''a'' 1)"
    by (simp only: mem_api_simps mem_at_simps)
  have h3: "Recover mem_api (mem_at ''a'' 1) = (Some ''[1..2)'', mem_at ''a'' 2)"
    by (simp only: mem_api_simps mem_at_simps)
  have h4: "ReadRecord mem_api (mem_at ''a'' 2) = (Some ''a2'', mem_at ''a'' 3)"
    by (simp only: mem_api_simps mem_at_simps)
  from GetNextInternal_skips_invalid_region [OF h1 h2 h3, of mem_ds] h1 h2 h3 h4
  show ?thesis by (simp add: mem_api_simps del: One_nat_def)
qed

text \<open>
  C5. When \<^verbatim>\<open>ReadRecord\<close> fails, \<^verbatim>\<open>Recover\<close> yields nothing and \<^verbatim>\<open>Close\<close> reports
  a failure, the call returns the status of the closed reader, appends no tensor,
  discards the reader and moves the file index on by one. The file is not touched again:
  the next call ends the sequence when no file remains, and otherwise is the call on the
  next file, freshly opened.
\<close>

theorem GetNextInternal_unrecoverable_file:
  assumes "reader it = Some r" and "ReadRecord api r = (None, r1)"
    and "Recover api r1 = (None, r2)" and "Close api r2 = (False, r3)"
  shows "GetNextInternal api ds it =
           Some (\<lparr>returned = status api r3, out_tensors = [],
                  end_of_sequence = (current_file_index it + 1 = length (filenames ds))\<rparr>,
                 \<lparr>current_file_index = current_file_index it + 1, reader = None\<rparr>)
         \<and> (current_file_index it + 1 = length (filenames ds) \<longrightarrow>
              GetNextInternal api ds
                  \<lparr>current_file_index = current_file_index it + 1, reader = None\<rparr> =
                Some (\<lparr>returned = Status_OK, out_tensors = [], end_of_sequence = True\<rparr>,
                      \<lparr>current_file_index = current_file_index it + 1, reader = None\<rparr>))
         \<and> (current_file_index it + 1 < length (filenames ds) \<longrightarrow>
              GetNextInternal api ds
                  \<lparr>current_file_index = current_file_index it + 1, reader = None\<rparr> =
                GetNextInternal api ds
                  \<lparr>current_file_index = current_file_index it + 1,
                   reader = Some (FileReader api
                                    (filenames ds ! (current_file_index it + 1)))\<rparr>)"
proof -
  let ?it1 = "\<lparr>current_file_index = current_file_index it + 1, reader = None :: 'a option\<rparr>"
  have "GetNextInternal api ds it =
          Some (\<lparr>returned = status api r3, out_tensors = [],
                 end_of_sequence = (current_file_index it + 1 = length (filenames ds))\<rparr>, ?it1)"
    using assms by (simp add: GetNextInternal_failed)
  then show ?thesis
    by (auto simp: GetNextInternal_at_end GetNextInternal_open_next)
qed

theorem GetNextInternal_unrecoverable_file_witness:
  "reader \<lparr>current_file_index = 0, reader = Some (mem_at ''c'' 0)\<rparr> = Some (mem_at ''c'' 0)
   \<and> ReadRecord mem_api (mem_at ''c'' 0) = (None, mem_at ''c'' 0)
   \<and> Recover mem_api (mem_at ''c'' 0) = (None, mem_at ''c'' 0)
   \<and> Close mem_api (mem_at ''c'' 0) = (False, mem_at ''c'' 0)
   \<and> GetNextInternal mem_api \<lparr>filenames = [''c'', ''b'']\<rparr>
         \<lparr>current_file_index = 0, reader = Some (mem_at ''c'' 0)\<rparr> =
       Some (\<lparr>returned = \<lparr>code = DATA_LOSS, message = ''broken file''\<rparr>,
              out_tensors = [], end_of_sequence = False\<rparr>,
             \<lparr>current_file_index = 1, reader = None\<rparr>)
   \<and> GetNextInternal mem_api \<lparr>filenames = [''c'', ''b'']\<rparr>
         \<lparr>current_file_index = 1, reader = None\<rparr> =
       Some (\<lparr>returned = Status_OK, out_tensors = [''b1''], end_of_sequence = False\<rparr>,
             \<lparr>current_file_index = 1, reader = Some (mem_at ''b'' 1)\<rparr>)"
proof -
  let ?it = "\<lparr>current_file_index = 0, reader = Some (mem_at ''c'' 0)\<rparr>"
  let ?ds = "\<lparr>filenames = [''c'', ''b'']\<rparr>"
  have h1: "reader ?it = Some (mem_at ''c'' 0)" by simp
  have h2: "ReadRecord mem_api (mem_at ''c'' 0) = (None, mem_at ''c'' 0)"
    by (simp only: mem_api_simps mem_at_simps)
  have h3: "Recover mem_api (mem_at ''c'' 0) = (None, mem_at ''c'' 0)"
    by (simp only: mem_api_simps mem_at_simps)
  have h4: "Close mem_api (mem_at ''c'' 0) = (False, mem_at ''c'' 0)"
    by (simp only: mem_api_simps mem_at_simps)
  have n: "GetNextInternal mem_api ?ds
             \<lparr>current_file_index = 1, reader = Some (FileReader mem_api (filenames ?ds ! 1))\<rparr> =
           Some (\<lparr>returned = Status_OK, out_tensors = [''b1''], end_of_sequence = False\<rparr>,
                 \<lparr>current_file_index = 1, reader = Some (mem_at ''b'' 1)\<rparr>)"
    by (subst GetNextInternal_record [where r = "mem_at ''b'' 0" and v = "''b1''"
          and ?r1.0 = "mem_at ''b'' 1"])
       (simp_all add: mem_api_simps mem_at_simps del: One_nat_def)
  from GetNextInternal_unrecoverable_file [OF h1 h2 h3 h4, of ?ds] h1 h2 h3 h4 n
  show ?thesis
    by (simp add: mem_api_simps mem_status_def mem_at_simps)
qed

text \<open>
  C6. For a cursor with a position and a file index within the cursor's range (at most
  the number of files): when the index is the number of files, restore returns
  \<^verbatim>\<open>Internal("current_file_index out of range")\<close>; when the position's bytes do not
  decode, it returns \<^verbatim>\<open>Internal("current_pos is not a valid RecordPosition")\<close>;
  otherwise it opens the file of that index, seeks to the position and returns OK,
  whatever \<^verbatim>\<open>Seek\<close> returned. A reader that the seek left failed is met by the next
  \<^verbatim>\<open>GetNextInternal\<close>: when its read and recovery fail and it does not close cleanly,
  that call returns the reader's status.
\<close>

theorem RestoreInternal_with_position:
  assumes "holds_cursor pr rd c" and "byte_position c = Some b"
    and "0 \<le> sint (file_index c)" and "nat (sint (file_index c)) \<le> length (filenames ds)"
  shows "RestoreInternal api pr ds rd it0 =
           (if nat (sint (file_index c)) = length (filenames ds) then
              Some (Internal ''current_file_index out of range'',
                    \<lparr>current_file_index = length (filenames ds), reader = None\<rparr>)
            else
              (case FromBytes api b of
                 None \<Rightarrow>
                   Some (Internal ''current_pos is not a valid RecordPosition'',
                         \<lparr>current_file_index = nat (sint (file_index c)), reader = None\<rparr>)
               | Some p \<Rightarrow>
                   Some (Status_OK,
                         \<lparr>current_file_index = nat (sint (file_index c)),
                          reader = Some (snd (Seek api p
                            (FileReader api (filenames ds ! nat (sint (file_index c))))))\<rparr>)))
         \<and> (\<forall>p r1 r2 r3.
               nat (sint (file_index c)) < length (filenames ds) \<longrightarrow>
               FromBytes api b = Some p \<longrightarrow>
               ReadRecord api (snd (Seek api p
                   (FileReader api (filenames ds ! nat (sint (file_index c)))))) = (None, r1) \<longrightarrow>
               Recover api r1 = (None, r2) \<longrightarrow> Close api r2 = (False, r3) \<longrightarrow>
               (\<exists>it1. RestoreInternal api pr ds rd it0 = Some (Status_OK, it1) \<and>
                      GetNextInternal api ds it1 =
                        Some (\<lparr>returned = status api r3, out_tensors = [],
                               end_of_sequence =
                                 (nat (sint (file_index c)) + 1 = length (filenames ds))\<rparr>,
                              \<lparr>current_file_index = nat (sint (file_index c)) + 1,
                               reader = None\<rparr>)))"
proof -
  note r = holds_cursor_RestoreInternal [OF assms(1), of api ds it0]
  have a: "RestoreInternal api pr ds rd it0 =
           (if nat (sint (file_index c)) = length (filenames ds) then
              Some (Internal ''current_file_index out of range'',
                    \<lparr>current_file_index = length (filenames ds), reader = None\<rparr>)
            else
              (case FromBytes api b of
                 None \<Rightarrow>
                   Some (Internal ''current_pos is not a valid RecordPosition'',
                         \<lparr>current_file_index = nat (sint (file_index c)), reader = None\<rparr>)
               | Some p \<Rightarrow>
                   Some (Status_OK,
                         \<lparr>current_file_index = nat (sint (file_index c)),
                          reader = Some (snd (Seek api p
                            (FileReader api (filenames ds ! nat (sint (file_index c))))))\<rparr>)))"
    using assms(2-4) by (simp add: r)
  have b: "GetNextInternal api ds
             \<lparr>current_file_index = nat (sint (file_index c)),
              reader = Some (snd (Seek api p
                (FileReader api (filenames ds ! nat (sint (file_index c))))))\<rparr> =
           Some (\<lparr>returned = status api r3, out_tensors = [],
                  end_of_sequence = (nat (sint (file_index c)) + 1 = length (filenames ds))\<rparr>,
                 \<lparr>current_file_index = nat (sint (file_index c)) + 1, reader = None\<rparr>)"
    if "ReadRecord api (snd (Seek api p
          (FileReader api (filenames ds ! nat (sint (file_index c)))))) = (None, r1)"
      and "Recover api r1 = (None, r2)" and "Close api r2 = (False, r3)"
    for p r1 r2 r3
    using that
    by (subst GetNextInternal_failed
          [where r = "snd (Seek api p
             (FileReader api (filenames ds ! nat (sint (file_index c)))))"
           and ?r1.0 = r1 and ?r2.0 = r2 and ?r3.0 = r3]) simp_all
  show ?thesis
  proof (rule conjI [OF a], intro allI impI)
    fix p r1 r2 r3
    assume "nat (sint (file_index c)) < length (filenames ds)" "FromBytes api b = Some p"
      and "ReadRecord api (snd (Seek api p
          (FileReader api (filenames ds ! nat (sint (file_index c)))))) = (None, r1)"
      and "Recover api r1 = (None, r2)" and "Close api r2 = (False, r3)"
    then show "\<exists>it1. RestoreInternal api pr ds rd it0 = Some (Status_OK, it1) \<and>
                      GetNextInternal api ds it1 =
                        Some (\<lparr>returned = status api r3, out_tensors = [],
                               end_of_sequence =
                                 (nat (sint (file_index c)) + 1 = length (filenames ds))\<rparr>,
                              \<lparr>current_file_index = nat (sint (file_index c)) + 1,
                               reader = None\<rparr>)"
      by (simp add: a b)
  qed
qed


theorem RestoreInternal_with_position_witness:
  "holds_cursor mem_params (mem_rd_pos 2 []) \<lparr>file_index = 2, byte_position = Some []\<rparr>
   \<and> byte_position \<lparr>file_index = 2, byte_position = Some []\<rparr> = Some []
   \<and> 0 \<le> sint (file_index \<lparr>file_index = 2, byte_position = Some []\<rparr>)
   \<and> nat (sint (file_index \<lparr>file_index = 2, byte_position = Some []\<rparr>))
       \<le> length (filenames mem_ds)
   \<and> RestoreInternal mem_api mem_params mem_ds (mem_rd_pos 2 []) mem_it_b =
       Some (Status_OK, \<lparr>current_file_index = 2, reader = Some (mem_sought ''c'' 0)\<rparr>)
   \<and> GetNextInternal mem_api mem_ds
         \<lparr>current_file_index = 2, reader = Some (mem_sought ''c'' 0)\<rparr> =
       Some (\<lparr>returned = \<lparr>code = DATA_LOSS, message = ''broken file''\<rparr>,
              out_tensors = [], end_of_sequence = True\<rparr>,
             \<lparr>current_file_index = 3, reader = None\<rparr>)"
proof -
  let ?c = "\<lparr>file_index = 2, byte_position = Some []\<rparr>"
  have h1: "holds_cursor mem_params (mem_rd_pos 2 []) ?c"
    unfolding mem_rd_pos_def by (rule mem_holds_cursor_pos)
  have h2: "byte_position ?c = Some []" by simp
  have h3: "0 \<le> sint (file_index ?c)" by simp
  have h4: "nat (sint (file_index ?c)) \<le> length (filenames mem_ds)"
    by (simp add: mem_ds_def)
  have s: "snd (Seek mem_api 0 (FileReader mem_api (filenames mem_ds ! 2))) = mem_sought ''c'' 0"
    by (simp add: mem_api_simps mem_ds_def)
  have e: "nat (sint (file_index ?c)) = 2" "FromBytes mem_api [] = Some 0"
    "ReadRecord mem_api (mem_sought ''c'' 0) = (None, mem_sought ''c'' 0)"
    "Recover mem_api (mem_sought ''c'' 0) = (None, mem_sought ''c'' 0)"
    "Close mem_api (mem_sought ''c'' 0) = (False, mem_sought ''c'' 0)"
    "status mem_api (mem_sought ''c'' 0) = \<lparr>code = DATA_LOSS, message = ''broken file''\<rparr>"
    "length (filenames mem_ds) = 3"
    by (simp_all add: mem_api_simps mem_sought_simps mem_FromBytes_def mem_status_def mem_ds_def)
  note t = RestoreInternal_with_position [OF h1 h2 h3 h4, of mem_api mem_it_b]
  from t have r: "RestoreInternal mem_api mem_params mem_ds (mem_rd_pos 2 []) mem_it_b =
       Some (Status_OK, \<lparr>current_file_index = 2, reader = Some (mem_sought ''c'' 0)\<rparr>)"
    by (simp add: e s)
  from t [THEN conjunct2, rule_format, of 0 "mem_sought ''c'' 0" "mem_sought ''c'' 0"
      "mem_sought ''c'' 0"]
  have "GetNextInternal mem_api mem_ds
          \<lparr>current_file_index = 2, reader = Some (mem_sought ''c'' 0)\<rparr> =
       Some (\<lparr>returned = \<lparr>code = DATA_LOSS, message = ''broken file''\<rparr>,
              out_tensors = [], end_of_sequence = True\<rparr>,
             \<lparr>current_file_index = 3, reader = None\<rparr>)"
    by (simp add: e s r)
  with h1 h2 h3 h4 r show ?thesis by simp
qed

text \<open>
  C7. \<^verbatim>\<open>SaveInternal\<close> hands the iterator back as it was. It always writes the file
  index first: when that write fails, \<^verbatim>\<open>SaveInternal\<close> returns its status and writes
  nothing more. When it succeeds and no reader is open, \<^verbatim>\<open>SaveInternal\<close> returns OK
  and has written nothing else; with a reader open it writes the bytes of the reader's
  position next, and returns OK when that write does and its status otherwise. So on a
  checkpoint that reads back what is written to it, when the writes succeed
  \<^verbatim>\<open>SaveInternal\<close> returns OK and the checkpoint holds the cursor of the state: its file
  index, which below \<open>2 ^ 63\<close> is the current file index itself, and the bytes of the
  reader's position exactly when a reader is open. Whenever \<^verbatim>\<open>SaveInternal\<close> returns OK
  on such a checkpoint, it holds that cursor.
\<close>

theorem SaveInternal_cursor:
  "snd (snd (SaveInternal api pr wapi w it)) = it
   \<and> (\<not> ok (fst (index_write pr wapi w it)) \<longrightarrow>
        SaveInternal api pr wapi w it =
          (fst (index_write pr wapi w it), snd (index_write pr wapi w it), it))
   \<and> (ok (fst (index_write pr wapi w it)) \<longrightarrow> reader it = None \<longrightarrow>
        SaveInternal api pr wapi w it = (Status_OK, snd (index_write pr wapi w it), it))
   \<and> (\<forall>r. ok (fst (index_write pr wapi w it)) \<longrightarrow> reader it = Some r \<longrightarrow>
        SaveInternal api pr wapi w it =
          (if ok (fst (pos_write api pr wapi w it r)) then Status_OK
           else fst (pos_write api pr wapi w it r),
           snd (pos_write api pr wapi w it r), it))
   \<and> (checkpoint_roundtrip pr wapi rd_of w \<longrightarrow> ok (fst (index_write pr wapi w it)) \<longrightarrow>
        (\<forall>r. reader it = Some r \<longrightarrow> ok (fst (pos_write api pr wapi w it r))) \<longrightarrow>
        fst (SaveInternal api pr wapi w it) = Status_OK \<and>
        holds_cursor pr (rd_of (fst (snd (SaveInternal api pr wapi w it))))
          \<lparr>file_index = IntCast_int64 (current_file_index it),
           byte_position = (case reader it of
                              None \<Rightarrow> None
                            | Some r \<Rightarrow> Some (ToBytes api (pos api r)))\<rparr>)
   \<and> (checkpoint_roundtrip pr wapi rd_of w \<longrightarrow> ok (fst (SaveInternal api pr wapi w it)) \<longrightarrow>
        holds_cursor pr (rd_of (fst (snd (SaveInternal api pr wapi w it))))
          \<lparr>file_index = IntCast_int64 (current_file_index it),
           byte_position = (case reader it of
                              None \<Rightarrow> None
                            | Some r \<Rightarrow> Some (ToBytes api (pos api r)))\<rparr>)
   \<and> (current_file_index it < 2 ^ 63 \<longrightarrow>
        sint (IntCast_int64 (current_file_index it)) = int (current_file_index it))"
proof -
  let ?c = "\<lparr>file_index = IntCast_int64 (current_file_index it),
            byte_position = (case reader it of
                               None \<Rightarrow> None
                             | Some r \<Rightarrow> Some (ToBytes api (pos api r)))\<rparr>"
  have c: "cursor_of api it = ?c"
    by (simp add: cursor_of_def split: option.splits)
  have a: "snd (snd (SaveInternal api pr wapi w it)) = it"
    by (rule SaveInternal_iterator)
  have b: "\<not> ok (fst (index_write pr wapi w it)) \<longrightarrow>
        SaveInternal api pr wapi w it =
          (fst (index_write pr wapi w it), snd (index_write pr wapi w it), it)"
    by (simp add: SaveInternal_index_fails)
  have d: "ok (fst (index_write pr wapi w it)) \<longrightarrow> reader it = None \<longrightarrow>
        SaveInternal api pr wapi w it = (Status_OK, snd (index_write pr wapi w it), it)"
    by (simp add: SaveInternal_no_reader)
  have e: "\<forall>r. ok (fst (index_write pr wapi w it)) \<longrightarrow> reader it = Some r \<longrightarrow>
        SaveInternal api pr wapi w it =
          (if ok (fst (pos_write api pr wapi w it r)) then Status_OK
           else fst (pos_write api pr wapi w it r),
           snd (pos_write api pr wapi w it r), it)"
    by (intro allI impI) (rule SaveInternal_reader)
  have g: "checkpoint_roundtrip pr wapi rd_of w \<longrightarrow> ok (fst (SaveInternal api pr wapi w it)) \<longrightarrow>
        holds_cursor pr (rd_of (fst (snd (SaveInternal api pr wapi w it)))) ?c"
    using SaveInternal_holds_cursor [of pr wapi rd_of w api it] c by simp
  have f: "checkpoint_roundtrip pr wapi rd_of w \<longrightarrow> ok (fst (index_write pr wapi w it)) \<longrightarrow>
        (\<forall>r. reader it = Some r \<longrightarrow> ok (fst (pos_write api pr wapi w it r))) \<longrightarrow>
        fst (SaveInternal api pr wapi w it) = Status_OK \<and>
        holds_cursor pr (rd_of (fst (snd (SaveInternal api pr wapi w it)))) ?c"
  proof (intro impI)
    assume r: "checkpoint_roundtrip pr wapi rd_of w"
      and ws: "ok (fst (index_write pr wapi w it))"
        "\<forall>r. reader it = Some r \<longrightarrow> ok (fst (pos_write api pr wapi w it r))"
    from SaveInternal_OK [OF ws] have o: "fst (SaveInternal api pr wapi w it) = Status_OK" .
    then have "ok (fst (SaveInternal api pr wapi w it))" by (simp add: ok_Status_OK)
    with g r o show "fst (SaveInternal api pr wapi w it) = Status_OK \<and>
        holds_cursor pr (rd_of (fst (snd (SaveInternal api pr wapi w it)))) ?c"
      by blast
  qed
  have h: "current_file_index it < 2 ^ 63 \<longrightarrow>
        sint (IntCast_int64 (current_file_index it)) = int (current_file_index it)"
    by (simp add: sint_IntCast_int64)
  show ?thesis
    by (intro conjI) (fact a b d e f g h)+
qed

theorem SaveInternal_cursor_witness:
  "SaveInternal mem_api mem_params mem_wapi [] (Iterator_init :: mem_reader Iterator) =
     (Status_OK, [(''Riegeli:current_file_index'', Inl 0)], Iterator_init)
   \<and> holds_cursor mem_params (mem_rd_of [(''Riegeli:current_file_index'', Inl 0)])
        \<lparr>file_index = 0, byte_position = None\<rparr>
   \<and> SaveInternal mem_api mem_params mem_wapi [] mem_it_b =
       (Status_OK,
        [(''Riegeli:current_pos'', Inr []), (''Riegeli:current_file_index'', Inl 1)],
        mem_it_b)
   \<and> holds_cursor mem_params
        (mem_rd_of [(''Riegeli:current_pos'', Inr []), (''Riegeli:current_file_index'', Inl 1)])
        \<lparr>file_index = 1, byte_position = Some []\<rparr>
   \<and> SaveInternal mem_api mem_params (mem_wapi_limit 0) []
         (Iterator_init :: mem_reader Iterator) =
       (\<lparr>code = RESOURCE_EXHAUSTED, message = ''Riegeli:current_file_index''\<rparr>, [],
        Iterator_init)
   \<and> SaveInternal mem_api mem_params (mem_wapi_limit 1) [] mem_it_b =
       (\<lparr>code = RESOURCE_EXHAUSTED, message = ''Riegeli:current_pos''\<rparr>,
        [(''Riegeli:current_file_index'', Inl 1)], mem_it_b)
   \<and> current_file_index mem_it_b < 2 ^ 63
   \<and> sint (IntCast_int64 (current_file_index mem_it_b)) = 1"
proof -
  let ?i0 = "Iterator_init :: mem_reader Iterator"
  let ?k1 = "''Riegeli:current_file_index''" and ?k2 = "''Riegeli:current_pos''"
  have rt: "checkpoint_roundtrip mem_params mem_wapi mem_rd_of []"
    by (rule mem_checkpoint_roundtrip)
  have st: "reader ?i0 = None" "current_file_index ?i0 = 0"
    "reader mem_it_b = Some (mem_sought ''b'' 0)" "current_file_index mem_it_b = 1"
    by (simp_all add: Iterator_init_def mem_it_b_def)
  have iw: "index_write mem_params mem_wapi [] ?i0 = (Status_OK, [(?k1, Inl 0)])"
    "index_write mem_params mem_wapi [] mem_it_b = (Status_OK, [(?k1, Inl 1)])"
    "index_write mem_params (mem_wapi_limit 0) [] ?i0 =
       (\<lparr>code = RESOURCE_EXHAUSTED, message = ?k1\<rparr>, [])"
    "index_write mem_params (mem_wapi_limit 1) [] mem_it_b = (Status_OK, [(?k1, Inl 1)])"
    by (simp_all add: index_write_def mem_wapi_def mem_wapi_limit_def mem_params_def
          IntCast_int64_def st)
  have pw: "pos_write mem_api mem_params mem_wapi [] mem_it_b (mem_sought ''b'' 0) =
       (Status_OK, [(?k2, Inr []), (?k1, Inl 1)])"
    "pos_write mem_api mem_params (mem_wapi_limit 1) [] mem_it_b (mem_sought ''b'' 0) =
       (\<lparr>code = RESOURCE_EXHAUSTED, message = ?k2\<rparr>, [(?k1, Inl 1)])"
    unfolding pos_write_def iw snd_conv
    by (simp_all add: mem_wapi_def mem_wapi_limit_def mem_params_def
          mem_api_simps mem_sought_def)
  have oks: "ok Status_OK" "\<not> ok \<lparr>code = RESOURCE_EXHAUSTED, message = ?k1\<rparr>"
    "\<not> ok \<lparr>code = RESOURCE_EXHAUSTED, message = ?k2\<rparr>"
    by (simp_all add: ok_def Status_OK_def)
  have ev: "IntCast_int64 0 = 0" "IntCast_int64 1 = 1" "IntCast_int64 (Suc 0) = 1"
    "ToBytes mem_api (pos mem_api (mem_sought ''b'' 0)) = []"
    by (simp_all add: IntCast_int64_def mem_api_simps mem_sought_def)
  note t1 = SaveInternal_cursor [of mem_api mem_params mem_wapi "[]" ?i0 mem_rd_of]
  note t2 = SaveInternal_cursor [of mem_api mem_params mem_wapi "[]" mem_it_b mem_rd_of]
  note t3 = SaveInternal_cursor [of mem_api mem_params "mem_wapi_limit 0" "[]" ?i0 mem_rd_of]
  note t4 = SaveInternal_cursor [of mem_api mem_params "mem_wapi_limit 1" "[]" mem_it_b mem_rd_of]
  from t1 have c1: "SaveInternal mem_api mem_params mem_wapi [] ?i0 =
      (Status_OK, [(?k1, Inl 0)], Iterator_init)"
    by (simp add: iw oks st)
  from t1 rt have c2: "holds_cursor mem_params (mem_rd_of [(?k1, Inl 0)])
      \<lparr>file_index = 0, byte_position = None\<rparr>"
    by (auto simp: iw oks st ev)
  from t2 have c3: "SaveInternal mem_api mem_params mem_wapi [] mem_it_b =
      (Status_OK, [(?k2, Inr []), (?k1, Inl 1)], mem_it_b)"
    by (simp add: iw pw oks st)
  from t2 rt have c4: "holds_cursor mem_params (mem_rd_of [(?k2, Inr []), (?k1, Inl 1)])
      \<lparr>file_index = 1, byte_position = Some []\<rparr>"
    by (auto simp: iw pw oks st ev)
  from t3 have c5: "SaveInternal mem_api mem_params (mem_wapi_limit 0) [] ?i0 =
      (\<lparr>code = RESOURCE_EXHAUSTED, message = ?k1\<rparr>, [], Iterator_init)"
    by (simp add: iw oks st)
  from t4 have c6: "SaveInternal mem_api mem_params (mem_wapi_limit 1) [] mem_it_b =
      (\<lparr>code = RESOURCE_EXHAUSTED, message = ?k2\<rparr>, [(?k1, Inl 1)], mem_it_b)"
    by (simp add: iw pw oks st del: One_nat_def)
  have c7: "current_file_index mem_it_b < 2 ^ 63" by (simp add: st)
  with t2 have c8: "sint (IntCast_int64 (current_file_index mem_it_b)) = 1"
    by (simp add: st)
  show ?thesis
    by (intro conjI) (fact c1 c2 c3 c4 c5 c6 c7 c8)+
qed

text \<open>
  C8. Every state an iterator can reach satisfies the invariants of lines 234 to 237:
  the file index is at most the number of files, and at that number no reader is open.
  From a state that satisfies them \<^verbatim>\<open>GetNextInternal\<close> returns, in a state that
  satisfies them; \<^verbatim>\<open>SaveInternal\<close> keeps them; and \<^verbatim>\<open>RestoreInternal\<close> returns in a
  state that satisfies them, whatever it returns.
\<close>

theorem Invariants_preserved:
  "(reachable api pr ds it \<longrightarrow> Invariants ds it)
   \<and> (Invariants ds it \<longrightarrow>
        (\<exists>out it1. GetNextInternal api ds it = Some (out, it1) \<and> Invariants ds it1))
   \<and> (Invariants ds it \<longrightarrow> Invariants ds (snd (snd (SaveInternal api pr wapi w it))))
   \<and> (\<exists>s it1. RestoreInternal api pr ds rd it = Some (s, it1) \<and> Invariants ds it1)"
proof (intro conjI impI)
  assume "reachable api pr ds it"
  then show "Invariants ds it" by (rule reachable_Invariants)
next
  assume i: "Invariants ds it"
  from GetNextInternal_defined [OF i, of api] obtain out it1 where
    g: "GetNextInternal api ds it = Some (out, it1)" by auto
  from Invariants_GetNextInternal [OF i g] g
  show "\<exists>out it1. GetNextInternal api ds it = Some (out, it1) \<and> Invariants ds it1"
    by blast
next
  assume "Invariants ds it"
  then show "Invariants ds (snd (snd (SaveInternal api pr wapi w it)))"
    by (simp add: SaveInternal_iterator)
next
  from RestoreInternal_defined [of api pr ds rd it] obtain s it1 where
    r: "RestoreInternal api pr ds rd it = Some (s, it1)" by auto
  from Invariants_RestoreInternal [OF r] r
  show "\<exists>s it1. RestoreInternal api pr ds rd it = Some (s, it1) \<and> Invariants ds it1"
    by blast
qed

theorem Invariants_preserved_witness:
  "reachable mem_api mem_params mem_ds mem_it_b
   \<and> Invariants mem_ds mem_it_b
   \<and> GetNextInternal mem_api mem_ds mem_it_b =
       Some (\<lparr>returned = Status_OK, out_tensors = [''b1''], end_of_sequence = False\<rparr>,
             \<lparr>current_file_index = 1, reader = Some (mem_sought ''b'' 1)\<rparr>)
   \<and> Invariants mem_ds \<lparr>current_file_index = 1, reader = Some (mem_sought ''b'' 1)\<rparr>
   \<and> Invariants mem_ds (snd (snd (SaveInternal mem_api mem_params mem_wapi [] mem_it_b)))
   \<and> RestoreInternal mem_api mem_params mem_ds (mem_rd_index 3) mem_it_b =
       Some (Status_OK, \<lparr>current_file_index = 3, reader = None\<rparr>)
   \<and> Invariants mem_ds \<lparr>current_file_index = 3, reader = None :: mem_reader option\<rparr>"
proof -
  note t = Invariants_preserved
    [of mem_api mem_params mem_ds mem_it_b mem_wapi "[]" "mem_rd_index 3"]
  have "RestoreInternal mem_api mem_params mem_ds (mem_rd_pos 1 []) Iterator_init =
          Some (Status_OK, mem_it_b)"
    unfolding mem_rd_pos_def
    by (subst holds_cursor_RestoreInternal [OF mem_holds_cursor_pos])
       (simp add: mem_ds_def mem_api_simps mem_FromBytes_def mem_it_b_def)
  from reachable_Restore [OF reachable_init this]
  have h1: "reachable mem_api mem_params mem_ds mem_it_b" .
  with t have h2: "Invariants mem_ds mem_it_b" by blast
  have g: "GetNextInternal mem_api mem_ds mem_it_b =
       Some (\<lparr>returned = Status_OK, out_tensors = [''b1''], end_of_sequence = False\<rparr>,
             \<lparr>current_file_index = 1, reader = Some (mem_sought ''b'' 1)\<rparr>)"
    by (subst GetNextInternal_record [where r = "mem_sought ''b'' 0" and v = "''b1''"
          and ?r1.0 = "mem_sought ''b'' 1"])
       (simp_all add: mem_api_simps mem_sought_simps mem_it_b_def del: One_nat_def)
  have r: "RestoreInternal mem_api mem_params mem_ds (mem_rd_index 3) mem_it_b =
       Some (Status_OK, \<lparr>current_file_index = 3, reader = None\<rparr>)"
    unfolding mem_rd_index_def
    by (subst holds_cursor_RestoreInternal [OF mem_holds_cursor_index])
       (simp add: mem_ds_def)
  from t h1 h2 g r show ?thesis by simp
qed

text \<open>
  C9. \<^verbatim>\<open>RestoreInternal\<close> always returns, and whenever the status it returns is not OK
  the iterator it leaves has no reader: the reader is reset before anything is read from
  the checkpoint, and \<^verbatim>\<open>OpenFile\<close> is only reached after the last check.
\<close>

theorem RestoreInternal_error_no_reader:
  "\<exists>s it1. RestoreInternal api pr ds rd it0 = Some (s, it1) \<and> (\<not> ok s \<longrightarrow> reader it1 = None)"
  by (auto simp: RestoreInternal_def OpenFile_def Let_def ok_def Status_OK_def
           split: prod.splits option.splits)

theorem RestoreInternal_error_no_reader_witness:
  "reader mem_it_b \<noteq> None
   \<and> \<not> ok (fst (the (RestoreInternal mem_api mem_params mem_ds (mem_rd_pos 1 ''x'') mem_it_b)))
   \<and> reader (snd (the (RestoreInternal mem_api mem_params mem_ds (mem_rd_pos 1 ''x'') mem_it_b)))
       = None"
proof -
  have e: "RestoreInternal mem_api mem_params mem_ds (mem_rd_pos 1 ''x'') mem_it_b =
           Some (Internal ''current_pos is not a valid RecordPosition'',
                 \<lparr>current_file_index = 1, reader = None\<rparr>)"
    unfolding mem_rd_pos_def
    by (subst holds_cursor_RestoreInternal [OF mem_holds_cursor_pos])
       (simp add: mem_ds_def mem_api_simps mem_FromBytes_def)
  have n: "\<not> ok (Internal ''current_pos is not a valid RecordPosition'')"
    by (simp add: ok_def Internal_def)
  from RestoreInternal_error_no_reader
    [of mem_api mem_params mem_ds "mem_rd_pos 1 ''x''" mem_it_b] e n
  show ?thesis by (auto simp: mem_it_b_def)
qed

text \<open>
  C10. When the failing file is the last of the list, the call that returns the closed
  reader's status also stores true in \<^verbatim>\<open>*end_of_sequence\<close>.
\<close>

theorem GetNextInternal_last_file_fails:
  assumes "reader it = Some r" and "ReadRecord api r = (None, r1)"
    and "Recover api r1 = (None, r2)" and "Close api r2 = (False, r3)"
    and "current_file_index it + 1 = length (filenames ds)"
  shows "GetNextInternal api ds it =
           Some (\<lparr>returned = status api r3, out_tensors = [], end_of_sequence = True\<rparr>,
                 \<lparr>current_file_index = length (filenames ds), reader = None\<rparr>)"
  using assms by (simp add: GetNextInternal_failed)

theorem GetNextInternal_last_file_fails_witness:
  "reader \<lparr>current_file_index = 2, reader = Some (mem_at ''c'' 0)\<rparr> = Some (mem_at ''c'' 0)
   \<and> ReadRecord mem_api (mem_at ''c'' 0) = (None, mem_at ''c'' 0)
   \<and> Recover mem_api (mem_at ''c'' 0) = (None, mem_at ''c'' 0)
   \<and> Close mem_api (mem_at ''c'' 0) = (False, mem_at ''c'' 0)
   \<and> current_file_index \<lparr>current_file_index = 2, reader = Some (mem_at ''c'' 0)\<rparr> + 1 =
       length (filenames mem_ds)
   \<and> GetNextInternal mem_api mem_ds \<lparr>current_file_index = 2, reader = Some (mem_at ''c'' 0)\<rparr> =
       Some (\<lparr>returned = \<lparr>code = DATA_LOSS, message = ''broken file''\<rparr>,
              out_tensors = [], end_of_sequence = True\<rparr>,
             \<lparr>current_file_index = 3, reader = None\<rparr>)"
proof -
  let ?it = "\<lparr>current_file_index = 2, reader = Some (mem_at ''c'' 0)\<rparr>"
  have h1: "reader ?it = Some (mem_at ''c'' 0)" by simp
  have h2: "ReadRecord mem_api (mem_at ''c'' 0) = (None, mem_at ''c'' 0)"
    by (simp only: mem_api_simps mem_at_simps)
  have h3: "Recover mem_api (mem_at ''c'' 0) = (None, mem_at ''c'' 0)"
    by (simp only: mem_api_simps mem_at_simps)
  have h4: "Close mem_api (mem_at ''c'' 0) = (False, mem_at ''c'' 0)"
    by (simp only: mem_api_simps mem_at_simps)
  have h5: "current_file_index ?it + 1 = length (filenames mem_ds)"
    by (simp add: mem_ds_def)
  from GetNextInternal_last_file_fails [OF h1 h2 h3 h4 h5] h1 h2 h3 h4 h5
  show ?thesis
    by (simp add: mem_api_simps mem_status_def mem_at_simps mem_ds_def)
qed

end
